theory Spec2Isabelle
  imports Complex_Main "HOL-Library.Sublist" "HOL-Library.AList" "HOL-Library.Code_Target_Nat"
begin

section \<open>JavaScript strings\<close>

text \<open>
  A JavaScript string is a sequence of UTF-16 code units, and \<open>length\<close>, \<open>indexOf\<close>,
  \<open>slice\<close> and the regular expressions of the analyzer (none has the \<open>u\<close> flag) all
  count code units. A code unit is a natural number below 65536; \<open>js\<close> embeds an
  ASCII literal.
\<close>

type_synonym jsstring = "nat list"

definition js :: "string \<Rightarrow> jsstring" where
  "js s = map of_char s"

text \<open>The typographic characters the source uses in its literals.\<close>

definition rsquo :: nat where "rsquo = 8217"
definition lsquo :: nat where "lsquo = 8216"
definition mdash :: nat where "mdash = 8212"

text \<open>
  \<open>String.prototype.toLowerCase\<close> maps code points with the Unicode default case
  conversion. \<open>lowerUnit\<close> writes the mapping out for Basic Latin and Latin-1
  Supplement, for U+0130 (capital I with dot above, whose lower case is the two code
  units U+0069 U+0307: the only mapping that changes the length of a string), and for
  the four code units above U+00FF whose lower case lies in Basic Latin or Latin-1
  (U+0178, U+1E9E, and the Kelvin and Angstrom signs U+212A, U+212B).

  Every other code unit is kept. JavaScript lower-cases 1112 further code units of the
  Basic Multilingual Plane (Greek, Cyrillic, Latin Extended and other cased letters),
  each to one code unit above U+00FF, and the low surrogate of some pairs; the model does
  not. So the model has JavaScript's lengths and positions for every text, and
  JavaScript's answer whenever a text is compared with a phrase drawn from Basic Latin,
  Latin-1 and U+2019, as all phrases of the route are; it can differ from JavaScript
  where a phrase or a knowledge-base tag holds a cased letter above U+00FF.
\<close>

definition lowerUnit :: "nat \<Rightarrow> jsstring" where
  "lowerUnit c =
     (if 65 \<le> c \<and> c \<le> 90 then [c + 32]
      else if 192 \<le> c \<and> c \<le> 222 \<and> c \<noteq> 215 then [c + 32]
      else if c = 304 then [105, 775]
      else if c = 376 then [255]
      else if c = 7838 then [223]
      else if c = 8490 then [107]
      else if c = 8491 then [229]
      else [c])"

definition toLowerCase :: "jsstring \<Rightarrow> jsstring" where
  "toLowerCase s = concat (map lowerUnit s)"

text \<open>
  \<open>s.indexOf(needle, pos)\<close>: the least \<open>k \<ge> min pos (length s)\<close> at which \<open>needle\<close>
  occurs in \<open>s\<close>; \<open>None\<close> is JavaScript's \<open>-1\<close>. The empty needle is found at once.
\<close>

fun search_from :: "jsstring \<Rightarrow> jsstring \<Rightarrow> nat \<Rightarrow> nat option" where
  "search_from needle [] k = (if needle = [] then Some k else None)"
| "search_from needle (x # xs) k =
     (if prefix needle (x # xs) then Some k else search_from needle xs (Suc k))"

definition indexOf :: "jsstring \<Rightarrow> jsstring \<Rightarrow> nat \<Rightarrow> nat option" where
  "indexOf s needle pos = (let p = min pos (length s) in search_from needle (drop p s) p)"

definition includesStr :: "jsstring \<Rightarrow> jsstring \<Rightarrow> bool" where
  "includesStr s needle = (indexOf s needle 0 \<noteq> None)"

text \<open>\<open>s.slice(a, b)\<close> for \<open>0 \<le> a\<close>, \<open>0 \<le> b\<close>.\<close>

definition slice :: "'a list \<Rightarrow> nat \<Rightarrow> nat \<Rightarrow> 'a list" where
  "slice s a b = take (b - a) (drop a s)"

section \<open>Verdicts\<close>

datatype verdict = Harmless | Suspicious | Dangerous

text \<open>
  JavaScript numbers are modelled as reals. The rounding of double arithmetic is not
  modelled: where the code computes with fractions (the 55/45 blend), the model has the
  exact value.
\<close>

definition verdictFromScore :: "real \<Rightarrow> verdict" where
  "verdictFromScore score =
     (if score \<ge> 70 then Dangerous
      else if score \<ge> 35 then Suspicious
      else Harmless)"

section \<open>The span locator\<close>

record span =
  s_start :: real
  s_end :: real
  s_label :: jsstring
  s_reason :: jsstring

record phrase =
  p_label :: jsstring
  p_phrase :: jsstring
  p_reason :: jsstring

definition mkSpan :: "phrase \<Rightarrow> nat \<Rightarrow> nat \<Rightarrow> span" where
  "mkSpan p found n =
     \<lparr>s_start = real found, s_end = real (found + n), s_label = p_label p, s_reason = p_reason p\<rparr>"

text \<open>
  The inner \<open>while (true)\<close> loop of \<open>findSpans\<close> for one phrase. The flag of the result
  is \<open>True\<close> when the loop left the whole function through \<open>return spans\<close> (the cap is
  reached) and \<open>False\<close> when it left through \<open>break\<close>. Every iteration that goes on has
  pushed a span, so the loop ends after at most \<open>cap\<close> rounds, also for an empty needle.
\<close>

function scanPhrase ::
  "nat \<Rightarrow> jsstring \<Rightarrow> jsstring \<Rightarrow> phrase \<Rightarrow> nat \<Rightarrow> span list \<Rightarrow> span list \<times> bool" where
  "scanPhrase cap lower needle p idx spans =
     (case indexOf lower needle idx of
        None \<Rightarrow> (spans, False)
      | Some found \<Rightarrow>
          (if length (spans @ [mkSpan p found (length needle)]) \<ge> cap
           then (spans @ [mkSpan p found (length needle)], True)
           else scanPhrase cap lower needle p (found + length needle)
                  (spans @ [mkSpan p found (length needle)])))"
  by pat_completeness auto
termination
  by (relation "measure (\<lambda>(cap, lower, needle, p, idx, spans). cap - length spans)") auto

declare scanPhrase.simps [simp del]

text \<open>The outer \<open>for (const p of phrases)\<close> loop.\<close>

fun forPhrases :: "nat \<Rightarrow> jsstring \<Rightarrow> phrase list \<Rightarrow> span list \<Rightarrow> span list" where
  "forPhrases cap lower [] spans = spans"
| "forPhrases cap lower (p # ps) spans =
     (case scanPhrase cap lower (toLowerCase (p_phrase p)) p 0 spans of
        (spans', True) \<Rightarrow> spans'
      | (spans', False) \<Rightarrow> forPhrases cap lower ps spans')"

text \<open>
  The two route variants that locate spans differ in the cap only: 40 in the variant with
  the knowledge base, 25 in \<open>src/app/api/analyze/route.ts\<close>.
\<close>

definition findSpans_cap :: "nat \<Rightarrow> jsstring \<Rightarrow> phrase list \<Rightarrow> span list" where
  "findSpans_cap cap text phrases = forPhrases cap (toLowerCase text) phrases []"

definition findSpans :: "jsstring \<Rightarrow> phrase list \<Rightarrow> span list" where
  "findSpans text phrases = findSpans_cap 40 text phrases"

definition findSpans_v1 :: "jsstring \<Rightarrow> phrase list \<Rightarrow> span list" where
  "findSpans_v1 text phrases = findSpans_cap 25 text phrases"

section \<open>Regular expressions\<close>

text \<open>
  The regular expressions of the source are embedded as terms of \<open>re\<close> and run by a
  backtracking matcher with JavaScript's priorities: alternatives left to right,
  quantifiers greedy. A matcher state is the code unit before the current position
  (for \<open>\b\<close> and \<open>^\<close>) and the rest of the input; \<open>ms r s\<close> lists the states after each
  way of matching \<open>r\<close> at \<open>s\<close>, the preferred one first.
\<close>

datatype re =
    Eps
  | Chr "nat \<Rightarrow> bool"
  | Seq re re
  | Alt re re
  | Opt re
  | Star re
  | WordB
  | LineStart

type_synonym mstate = "nat option \<times> jsstring"

definition isDigit :: "nat \<Rightarrow> bool" where
  "isDigit c = (48 \<le> c \<and> c \<le> 57)"

definition isAlpha :: "nat \<Rightarrow> bool" where
  "isAlpha c = ((65 \<le> c \<and> c \<le> 90) \<or> (97 \<le> c \<and> c \<le> 122))"

definition isWordChar :: "nat \<Rightarrow> bool" where
  "isWordChar c = (isDigit c \<or> isAlpha c \<or> c = 95)"

definition isLineTerminator :: "nat \<Rightarrow> bool" where
  "isLineTerminator c = (c = 10 \<or> c = 13 \<or> c = 8232 \<or> c = 8233)"

text \<open>The class \<open>\s\<close>: white space and line terminators.\<close>

definition isSpace :: "nat \<Rightarrow> bool" where
  "isSpace c =
     ((9 \<le> c \<and> c \<le> 13) \<or> c = 32 \<or> c = 160 \<or> c = 5760 \<or> (8192 \<le> c \<and> c \<le> 8202)
      \<or> c = 8232 \<or> c = 8233 \<or> c = 8239 \<or> c = 8287 \<or> c = 12288 \<or> c = 65279)"

fun wordBefore :: "nat option \<Rightarrow> bool" where
  "wordBefore None = False"
| "wordBefore (Some c) = isWordChar c"

fun wordAfter :: "jsstring \<Rightarrow> bool" where
  "wordAfter [] = False"
| "wordAfter (c # cs) = isWordChar c"

text \<open>\<open>^\<close> under the \<open>m\<close> flag: the start of the input or just after a line terminator.\<close>

fun lineStartAt :: "nat option \<Rightarrow> bool" where
  "lineStartAt None = True"
| "lineStartAt (Some c) = isLineTerminator c"

fun chrAt :: "(nat \<Rightarrow> bool) \<Rightarrow> mstate \<Rightarrow> mstate list" where
  "chrAt P (prev, []) = []"
| "chrAt P (prev, c # cs) = (if P c then [(Some c, cs)] else [])"

text \<open>
  An optional or repeated part that matches without consuming anything is dropped, as
  JavaScript does for \<open>?\<close> and \<open>*\<close>.
\<close>

definition consuming :: "mstate \<Rightarrow> mstate list \<Rightarrow> mstate list" where
  "consuming s results = filter (\<lambda>s'. length (snd s') < length (snd s)) results"

text \<open>
  Greedy iteration: every round shortens the input, so \<open>length (snd s)\<close> rounds are all
  there can be.
\<close>

fun star :: "(mstate \<Rightarrow> mstate list) \<Rightarrow> nat \<Rightarrow> mstate \<Rightarrow> mstate list" where
  "star m 0 s = [s]"
| "star m (Suc n) s = concat (map (star m n) (consuming s (m s))) @ [s]"

primrec ms :: "re \<Rightarrow> mstate \<Rightarrow> mstate list" where
  "ms Eps s = [s]"
| "ms (Chr P) s = chrAt P s"
| "ms (Seq a b) s = concat (map (ms b) (ms a s))"
| "ms (Alt a b) s = ms a s @ ms b s"
| "ms (Opt a) s = consuming s (ms a s) @ [s]"
| "ms (Star a) s = star (ms a) (length (snd s)) s"
| "ms WordB s = (if wordBefore (fst s) \<noteq> wordAfter (snd s) then [s] else [])"
| "ms LineStart s = (if lineStartAt (fst s) then [s] else [])"

text \<open>
  \<open>Array.from(text.matchAll(r)).map((m) => m[0])\<close> for a regular expression with the
  \<open>g\<close> flag: the leftmost match from the current position on, then on from its end (one
  code unit further after an empty match).
\<close>

function matchAll_at :: "re \<Rightarrow> nat option \<Rightarrow> jsstring \<Rightarrow> jsstring list" where
  "matchAll_at r prev [] = (case ms r (prev, []) of [] \<Rightarrow> [] | m # _ \<Rightarrow> [[]])"
| "matchAll_at r prev (c # cs) =
     (case ms r (prev, c # cs) of
        [] \<Rightarrow> matchAll_at r (Some c) cs
      | (prev', rest') # _ \<Rightarrow>
          (if length rest' < Suc (length cs)
           then take (Suc (length cs) - length rest') (c # cs) # matchAll_at r prev' rest'
           else [] # matchAll_at r (Some c) cs))"
  by pat_completeness auto
termination
  by (relation "measure (\<lambda>(r, prev, s). length s)") auto

definition matchAll :: "re \<Rightarrow> jsstring \<Rightarrow> jsstring list" where
  "matchAll r s = matchAll_at r None s"

text \<open>\<open>r.test(s)\<close> for a regular expression without the \<open>g\<close> flag.\<close>

fun test_at :: "re \<Rightarrow> nat option \<Rightarrow> jsstring \<Rightarrow> bool" where
  "test_at r prev [] = (ms r (prev, []) \<noteq> [])"
| "test_at r prev (c # cs) = (ms r (prev, c # cs) \<noteq> [] \<or> test_at r (Some c) cs)"

definition test :: "re \<Rightarrow> jsstring \<Rightarrow> bool" where
  "test r s = test_at r None s"

text \<open>
  The \<open>i\<close> flag compares the canonical (upper-case) forms of the pattern character
  and the input code unit, and never lets a code unit above 127 stand for an ASCII
  letter. \<open>canon\<close> is that form for the pattern characters of the source (ASCII, the
  Latin-1 letter of the mis-encoded class in \<open>rag.ts\<close>, and signs without case).
\<close>

definition canon :: "nat \<Rightarrow> nat" where
  "canon c =
     (if (97 \<le> c \<and> c \<le> 122) \<or> (224 \<le> c \<and> c \<le> 254 \<and> c \<noteq> 247) then c - 32 else c)"

fun lit :: "jsstring \<Rightarrow> re" where
  "lit [] = Eps"
| "lit (c # cs) = Seq (Chr (\<lambda>x. x = c)) (lit cs)"

fun liti :: "jsstring \<Rightarrow> re" where
  "liti [] = Eps"
| "liti (c # cs) = Seq (Chr (\<lambda>x. canon x = canon c)) (liti cs)"

fun alts :: "re list \<Rightarrow> re" where
  "alts [] = Chr (\<lambda>x. False)"
| "alts [r] = r"
| "alts (r # rs) = Alt r (alts rs)"

fun seqs :: "re list \<Rightarrow> re" where
  "seqs [] = Eps"
| "seqs [r] = r"
| "seqs (r # rs) = Seq r (seqs rs)"

definition rePlus :: "re \<Rightarrow> re" where
  "rePlus r = Seq r (Star r)"

text \<open>\<open>\b(a|b|...)\b\<close> under the \<open>i\<close> flag.\<close>

definition wordAlts :: "re list \<Rightarrow> re" where
  "wordAlts rs = seqs [WordB, alts rs, WordB]"

text \<open>The character classes \<open>[^\s)]\<close>, \<open>[a-zA-Z0-9.-]\<close>, \<open>[A-Z0-9._%+-]\<close> and \<open>[\s.-]\<close>.\<close>

definition notSpaceParen :: "nat \<Rightarrow> bool" where
  "notSpaceParen c = (\<not> isSpace c \<and> c \<noteq> 41)"

definition domainChar :: "nat \<Rightarrow> bool" where
  "domainChar c = (isAlpha c \<or> isDigit c \<or> c = 46 \<or> c = 45)"

definition emailLocalChar :: "nat \<Rightarrow> bool" where
  "emailLocalChar c = (isAlpha c \<or> isDigit c \<or> c = 46 \<or> c = 95 \<or> c = 37 \<or> c = 43 \<or> c = 45)"

definition sepChar :: "nat \<Rightarrow> bool" where
  "sepChar c = (isSpace c \<or> c = 46 \<or> c = 45)"

section \<open>The signal extractor\<close>

text \<open>
  \<open>extractSignals\<close> of the route variant with the knowledge base. Its three regular
  expressions:
  \<^verbatim>\<open>/(https?:\/\/[^\s)]+)|(\b[a-zA-Z0-9.-]+\.[a-zA-Z]{2,}(?:\/[^\s)]+)?)|(\bbit\.ly\/[^\s)]+)/gi\<close>,
  \<^verbatim>\<open>/\b[A-Z0-9._%+-]+@[A-Z0-9.-]+\.[A-Z]{2,}\b/gi\<close> and
  \<^verbatim>\<open>/(\+?\d{1,2}\s?)?(\(?\d{3}\)?[\s.-]?)\d{3}[\s.-]?\d{4}/g\<close>.
\<close>

definition urlRegex :: re where
  "urlRegex = alts
     [seqs [liti (js ''http''), Opt (liti (js ''s'')), lit (js ''://''), rePlus (Chr notSpaceParen)],
      seqs [WordB, rePlus (Chr domainChar), lit (js ''.''), Chr isAlpha, Chr isAlpha, Star (Chr isAlpha),
            Opt (seqs [lit (js ''/''), rePlus (Chr notSpaceParen)])],
      seqs [WordB, liti (js ''bit''), lit (js ''.''), liti (js ''ly''), lit (js ''/''),
            rePlus (Chr notSpaceParen)]]"

definition emailRegex :: re where
  "emailRegex =
     seqs [WordB, rePlus (Chr emailLocalChar), lit (js ''@''), rePlus (Chr domainChar), lit (js ''.''),
           Chr isAlpha, Chr isAlpha, Star (Chr isAlpha), WordB]"

definition phoneRegex :: re where
  "phoneRegex =
     seqs [Opt (seqs [Opt (lit (js ''+'')), Chr isDigit, Opt (Chr isDigit), Opt (Chr isSpace)]),
           seqs [Opt (lit (js ''('')), Chr isDigit, Chr isDigit, Chr isDigit, Opt (lit (js '')'')),
                 Opt (Chr sepChar)],
           Chr isDigit, Chr isDigit, Chr isDigit, Opt (Chr sepChar),
           Chr isDigit, Chr isDigit, Chr isDigit, Chr isDigit]"

text \<open>\<^verbatim>\<open>/bit\.ly|tinyurl|t\.co/i\<close>\<close>

definition shortLinkRegex :: re where
  "shortLinkRegex = alts [liti (js ''bit.ly''), liti (js ''tinyurl''), liti (js ''t.co'')]"

record technique =
  tc_name :: jsstring
  tc_confidence :: real
  tc_explanation :: jsstring
  tc_evidence :: "jsstring list"

text \<open>
  The phrase arrays of lines 97 to 119 and the hit lists filtered from them: the
  phrases of each category that occur in the lower-cased text.
\<close>

definition urgencyPhrases :: "jsstring list" where
  "urgencyPhrases =
     [js ''act now'', js ''urgent'', js ''immediately'', js ''within 24 hours'',
      js ''final notice'', js ''asap'', js ''last chance'']"

definition fearPhrases :: "jsstring list" where
  "fearPhrases =
     [js ''legal action'', js ''account suspended'', js ''locked'', js ''security alert'',
      js ''warrant'', js ''police'', js ''breach'']"

definition authorityPhrases :: "jsstring list" where
  "authorityPhrases =
     [js ''irs'', js ''bank'', js ''support'', js ''microsoft'', js ''apple'', js ''payroll'',
      js ''hr'', js ''ceo'', js ''admin'', js ''it team'']"

definition moneyPhrases :: "jsstring list" where
  "moneyPhrases =
     [js ''gift card'', js ''wire'', js ''bitcoin'', js ''crypto'', js ''payment'',
      js ''invoice'', js ''refund'', js ''owe'', js ''transfer'']"

definition otpPhrases :: "jsstring list" where
  "otpPhrases =
     [js ''verification code'', js ''otp'', js ''2fa'', js ''send the code'',
      js ''one-time code'', js ''code we sent'']"

definition rewardPhrases :: "jsstring list" where
  "rewardPhrases =
     [js ''winner'', js ''free'', js ''bonus'', js ''claim'', js ''prize'', js ''reward'']"

definition credPhrases :: "jsstring list" where
  "credPhrases =
     [js ''password'', js ''login'', js ''sign in'', js ''reset'', js ''verify your account'',
      js ''confirm your identity'']"

definition attachmentPhrases :: "jsstring list" where
  "attachmentPhrases =
     [js ''attachment'', js ''invoice attached'', js ''open the file'', js ''.zip'',
      js ''.html'', js ''.iso'', js ''.exe'', js ''.docm'']"

definition viralPhrases :: "jsstring list" where
  "viralPhrases =
     [js ''share before it's deleted'', (js ''share before it'' @ [rsquo] @ js ''s deleted''),
      (js ''they don'' @ [rsquo] @ js ''t want you to know''),
      js ''they don't want you to know'', js ''link in bio'', js ''repost'', js ''share now'',
      js ''before it's removed'', (js ''before it'' @ [rsquo] @ js ''s removed'')]"

definition getRichPhrases :: "jsstring list" where
  "getRichPhrases =
     [js ''double your money'', js ''guaranteed returns'', js ''overnight'',
      js ''miracle trick'', js ''get rich quick'']"

record hits =
  h_urls :: "jsstring list"
  urgencyHits :: "jsstring list"
  fearHits :: "jsstring list"
  authorityHits :: "jsstring list"
  moneyHits :: "jsstring list"
  otpHits :: "jsstring list"
  rewardHits :: "jsstring list"
  credHits :: "jsstring list"
  attachmentHits :: "jsstring list"
  viralHits :: "jsstring list"
  getRichHits :: "jsstring list"

definition collectHits :: "jsstring list \<Rightarrow> jsstring \<Rightarrow> hits" where
  "collectHits urlList lower =
     \<lparr>h_urls = urlList,
      urgencyHits = filter (includesStr lower) urgencyPhrases,
      fearHits = filter (includesStr lower) fearPhrases,
      authorityHits = filter (includesStr lower) authorityPhrases,
      moneyHits = filter (includesStr lower) moneyPhrases,
      otpHits = filter (includesStr lower) otpPhrases,
      rewardHits = filter (includesStr lower) rewardPhrases,
      credHits = filter (includesStr lower) credPhrases,
      attachmentHits = filter (includesStr lower) attachmentPhrases,
      viralHits = filter (includesStr lower) viralPhrases,
      getRichHits = filter (includesStr lower) getRichPhrases\<rparr>"

text \<open>Lines 121 to 137: \<open>let score = 0\<close>, one \<open>if (...) score += w\<close> per category, the cap.\<close>

definition keywordScore :: "hits \<Rightarrow> real" where
  "keywordScore h =
     min 100
       (0 + (if h_urls h \<noteq> [] then 16 else 0)
          + (if list_ex (test shortLinkRegex) (h_urls h) then 10 else 0)
          + (if moneyHits h \<noteq> [] then 16 else 0)
          + (if otpHits h \<noteq> [] then 26 else 0)
          + (if credHits h \<noteq> [] then 18 else 0)
          + (if urgencyHits h \<noteq> [] then 10 else 0)
          + (if fearHits h \<noteq> [] then 10 else 0)
          + (if authorityHits h \<noteq> [] then 7 else 0)
          + (if rewardHits h \<noteq> [] then 10 else 0)
          + (if attachmentHits h \<noteq> [] then 10 else 0)
          + (if viralHits h \<noteq> [] then 22 else 0)
          + (if getRichHits h \<noteq> [] then 22 else 0))"

definition mkTactic :: "jsstring \<Rightarrow> real \<Rightarrow> jsstring \<Rightarrow> jsstring list \<Rightarrow> technique" where
  "mkTactic name confidence explanation evidence =
     \<lparr>tc_name = name, tc_confidence = confidence, tc_explanation = explanation,
      tc_evidence = evidence\<rparr>"

definition lowSignal :: technique where
  "lowSignal = mkTactic (js ''Low Signal'') 60 (js ''No strong scam markers detected.'') []"

text \<open>Lines 139 to 152: one entry per category that has a hit, else the low-signal one.\<close>

definition buildTactics :: "hits \<Rightarrow> technique list" where
  "buildTactics h =
     (let tactics =
        (if urgencyHits h \<noteq> [] then [mkTactic (js ''Urgency'') 80
            (js ''Deadlines and pressure reduce careful checking.'') (take 3 (urgencyHits h))] else [])
      @ (if fearHits h \<noteq> [] then [mkTactic (js ''Fear'') 78
            (js ''Threat language pushes panic decisions.'') (take 3 (fearHits h))] else [])
      @ (if authorityHits h \<noteq> [] then [mkTactic (js ''Authority'') 72
            (js ''Impersonation of trusted roles/orgs increases compliance.'') (take 3 (authorityHits h))] else [])
      @ (if moneyHits h \<noteq> [] then [mkTactic (js ''Financial Hook'') 82
            (js ''Payment/refund/gift card themes are common scam patterns.'') (take 3 (moneyHits h))] else [])
      @ (if otpHits h \<noteq> [] then [mkTactic (js ''Code Theft'') 92
            (js ''Requests for OTP/MFA codes are a major takeover indicator.'') (take 3 (otpHits h))] else [])
      @ (if credHits h \<noteq> [] then [mkTactic (js ''Credential Harvest'') 86
            (js ''Attempts to steal logins via fake verification/reset.'') (take 3 (credHits h))] else [])
      @ (if attachmentHits h \<noteq> [] then [mkTactic (js ''Attachment Lure'') 75
            (js ''Attachments are a common malware delivery method.'') (take 3 (attachmentHits h))] else [])
      @ (if viralHits h \<noteq> [] then [mkTactic (js ''Virality / Engagement Bait'') 85
            (js ''Uses viral language to pressure sharing without verification.'') (take 3 (viralHits h))] else [])
      @ (if getRichHits h \<noteq> [] then [mkTactic (js ''Too-Good-To-Be-True Money Claim'') 88
            (js ''Promises fast/guaranteed money '' @ [mdash] @ js '' a common fraud pattern.'') (take 3 (getRichHits h))] else [])
      in if tactics = [] then [lowSignal] else tactics)"

definition mkPhrase :: "jsstring \<Rightarrow> jsstring \<Rightarrow> jsstring \<Rightarrow> phrase" where
  "mkPhrase label phr reason = \<lparr>p_label = label, p_phrase = phr, p_reason = reason\<rparr>"

definition spanPhrases :: "phrase list" where
  "spanPhrases =
     [mkPhrase (js ''Urgency'') (js ''urgent'') (js ''High-pressure wording.''),
      mkPhrase (js ''Urgency'') (js ''immediately'') (js ''Pushes fast action.''),
      mkPhrase (js ''Authority'') (js ''bank'') (js ''Impersonation of a trusted org.''),
      mkPhrase (js ''Authority'') (js ''irs'') (js ''Common authority-scam pattern.''),
      mkPhrase (js ''Tech Trick'') (js ''verification code'') (js ''Never share one-time codes.''),
      mkPhrase (js ''Tech Trick'') (js ''otp'') (js ''One-time codes enable takeovers.''),
      mkPhrase (js ''Viral'') (js ''link in bio'') (js ''Common social bait phrase.''),
      mkPhrase (js ''Viral'') (js ''share before it's deleted'') (js ''Virality pressure tactic.''),
      mkPhrase (js ''Money Claim'') (js ''double your money'') (js ''Too-good-to-be-true money promise.'')]"

record signals =
  sg_urls :: "jsstring list"
  sg_emails :: "jsstring list"
  sg_phone_numbers :: "jsstring list"
  heuristic_score :: real
  heuristic_tactics :: "technique list"
  sg_suspicious_spans :: "span list"

definition extractSignals :: "jsstring \<Rightarrow> signals" where
  "extractSignals text =
     (let h = collectHits (take 40 (matchAll urlRegex text)) (toLowerCase text)
      in \<lparr>sg_urls = h_urls h,
          sg_emails = take 40 (matchAll emailRegex text),
          sg_phone_numbers = take 40 (matchAll phoneRegex text),
          heuristic_score = keywordScore h,
          heuristic_tactics = buildTactics h,
          sg_suspicious_spans = findSpans text spanPhrases\<rparr>)"

section \<open>The attack-type classifier\<close>

datatype kind = KText | KEmail | KSocial

datatype emailMode = Personal | Work

record attack_type =
  at_tag :: jsstring
  at_confidence :: real
  at_rationale :: jsstring

definition mkTag :: "jsstring \<Rightarrow> real \<Rightarrow> jsstring \<Rightarrow> attack_type" where
  "mkTag tag confidence rationale =
     \<lparr>at_tag = tag, at_confidence = confidence, at_rationale = rationale\<rparr>"

text \<open>The seven word-bounded, case-insensitive tests of lines 172 to 178.\<close>

definition hasCredRegex :: re where
  "hasCredRegex = wordAlts (map liti
     [js ''password'', js ''login'', js ''sign in'', js ''verify your account'', js ''reset'',
      js ''confirm your identity''])"

definition hasOtpRegex :: re where
  "hasOtpRegex = wordAlts (map liti
     [js ''otp'', js ''verification code'', js ''one-time code'', js ''2fa'', js ''mfa'',
      js ''code we sent''])"

definition hasMoneyRegex :: re where
  "hasMoneyRegex = wordAlts (map liti
     [js ''gift card'', js ''wire'', js ''bank transfer'', js ''invoice'', js ''payment'',
      js ''crypto'', js ''bitcoin''])"

definition hasImpersonationRegex :: re where
  "hasImpersonationRegex = wordAlts (map liti
     [js ''hr'', js ''payroll'', js ''it'', js ''helpdesk'', js ''admin'', js ''ceo'',
      js ''cfo'', js ''finance'', js ''bank'', js ''support''])"

definition hasAttachmentRegex :: re where
  "hasAttachmentRegex = wordAlts (map liti
     [js ''attachment'', js ''.zip'', js ''.html'', js ''.iso'', js ''.exe'', js ''.docm''])"

text \<open>\<open>it'?s\<close>, and \<open>don[..]t\<close> with the typographic or the plain apostrophe.\<close>

definition apostrophe :: re where
  "apostrophe = Chr (\<lambda>x. x = rsquo \<or> x = 39)"

definition shareBeforeDeleted :: re where
  "shareBeforeDeleted = seqs [liti (js ''share before it''), Opt (lit [39]), liti (js ''s deleted'')]"

definition theyDontWant :: re where
  "theyDontWant = seqs [liti (js ''they don''), apostrophe, liti (js ''t want you to know'')]"

definition hasViralityRegex :: re where
  "hasViralityRegex = wordAlts
     [liti (js ''link in bio''), shareBeforeDeleted, theyDontWant, liti (js ''repost''),
      liti (js ''share now''), liti (js ''viral'')]"

definition hasGetRichRegex :: re where
  "hasGetRichRegex = wordAlts (map liti
     [js ''double your money'', js ''guaranteed returns'', js ''overnight'',
      js ''miracle trick'', js ''get rich quick''])"

text \<open>
  \<open>new Map\<close> keyed by tag, as an association list in insertion order: \<open>map.set\<close> on a
  key that is present replaces the value in place, on a new key appends.
\<close>

definition mapSetMax :: "(jsstring \<times> attack_type) list \<Rightarrow> attack_type \<Rightarrow> (jsstring \<times> attack_type) list" where
  "mapSetMax m t =
     (case map_of m (at_tag t) of
        None \<Rightarrow> AList.update (at_tag t) t m
      | Some prev \<Rightarrow> if at_confidence t > at_confidence prev then AList.update (at_tag t) t m else m)"

text \<open>\<open>.sort((a, b) => b.confidence - a.confidence)\<close>: stable, by descending confidence.\<close>

definition sortByConfidence :: "attack_type list \<Rightarrow> attack_type list" where
  "sortByConfidence ts = sort_key (\<lambda>t. - at_confidence t) ts"

definition buildAttackTypesHeuristic :: "kind \<Rightarrow> jsstring \<Rightarrow> jsstring list \<Rightarrow> attack_type list" where
  "buildAttackTypesHeuristic kind text urls =
     (let hasCred = test hasCredRegex text;
          hasOtp = test hasOtpRegex text;
          hasMoney = test hasMoneyRegex text;
          hasImpersonation = test hasImpersonationRegex text;
          hasAttachment = test hasAttachmentRegex text;
          hasVirality = test hasViralityRegex text;
          hasGetRich = test hasGetRichRegex text;
          tags =
            (if kind = KEmail \<or> kind = KText then
               (if hasCred \<or> hasOtp \<or> urls \<noteq> [] then [mkTag (js ''phishing'')
                  (min 95 (55 + (if hasOtp then 30 else 0) + (if hasCred then 20 else 0)
                     + (if urls \<noteq> [] then 10 else 0)))
                  (js ''Tries to get you to click/login/share secrets.'')] else [])
             @ (if hasImpersonation then [mkTag (js ''pretexting'') 80
                  (js ''Pretends to be a trusted role/org to make you comply.'')] else [])
             @ (if hasMoney \<and> hasImpersonation then [mkTag (js ''BEC / CEO fraud'') 85
                  (js ''Authority + payment request pattern.'')] else [])
             @ (if hasAttachment then [mkTag (js ''malware lure'') 75
                  (js ''Attachment-driven delivery is a common malware vector.'')] else [])
             @ (if hasOtp then [mkTag (js ''code theft'') 90
                  (js ''Requests for OTP/MFA codes are a major takeover indicator.'')] else [])
             @ (if hasCred then [mkTag (js ''credential harvesting'') 84
                  (js ''Attempts to capture logins via fake verification/reset.'')] else [])
             @ (if hasVirality \<or> hasGetRich then [mkTag (js ''spam / engagement bait'') 85
                  (js ''Viral bait / get-rich-quick content is high-risk spam.'')] else [])
             else [])
          @ (if kind = KSocial then
               (if hasVirality then [mkTag (js ''misinformation / engagement bait'') 85
                  (js ''Uses virality pressure and vague claims to drive shares.'')] else [])
             @ (if hasGetRich then [mkTag (js ''investment fraud / get-rich-quick'') 84
                  (js ''Promises of quick money are common fraud patterns.'')] else [])
             else [])
      in take 6 (sortByConfidence (map snd (foldl mapSetMax [] tags))))"

section \<open>The knowledge-base retriever\<close>

text \<open>
  \<open>rag.ts\<close> reads its entries from \<open>@/data/scam_kb.json\<close>, which is not part of the
  sources at hand: the table is a parameter \<open>kb\<close> of everything that consults it.
\<close>

record kb_entry =
  kb_id :: jsstring
  kb_tags :: "jsstring list"
  kb_title :: jsstring
  risk_boost :: real
  min_risk :: "real option"
  why_risky :: "jsstring list"
  what_to_do :: "jsstring list"
  safe_reply_template :: jsstring

text \<open>
  \<^verbatim>\<open>/(^subject:)|(^from:)|(^to:)|(^date:)|(^cc:)/m.test(text) || /@/.test(text)\<close>:
  the header names are matched as written, in lower case (there is no \<open>i\<close> flag).
\<close>

definition headerRegex :: re where
  "headerRegex = alts (map (\<lambda>h. Seq LineStart (lit h))
     [js ''subject:'', js ''from:'', js ''to:'', js ''date:'', js ''cc:''])"

definition looksLikeEmail :: "jsstring \<Rightarrow> bool" where
  "looksLikeEmail text = (test headerRegex text \<or> test (lit (js ''@'')) text)"

text \<open>
  The social test of the route,
  \<^verbatim>\<open>/(link in bio|share before it'?s deleted|they don[..]t want you to know|repost|viral|double your money|miracle trick)/i\<close>
  where the class holds U+2019 and the plain apostrophe.
\<close>

definition looksLikeSocialRegex :: re where
  "looksLikeSocialRegex = alts
     [liti (js ''link in bio''), shareBeforeDeleted, theyDontWant, liti (js ''repost''), liti (js ''viral''),
      liti (js ''double your money''), liti (js ''miracle trick'')]"

definition looksLikeSocial :: "jsstring \<Rightarrow> bool" where
  "looksLikeSocial text = test looksLikeSocialRegex text"

text \<open>
  The same test in \<open>rag.ts\<close>, whose class is the mis-encoded form of the typographic
  apostrophe: the four characters U+00E2, U+20AC, U+2122 and the plain apostrophe.
\<close>

definition ragApostrophe :: re where
  "ragApostrophe = Chr (\<lambda>x. canon x = canon 226 \<or> x = 8364 \<or> x = 8482 \<or> x = 39)"

definition ragSocialRegex :: re where
  "ragSocialRegex = alts
     [liti (js ''link in bio''), shareBeforeDeleted,
      seqs [liti (js ''they don''), ragApostrophe, liti (js ''t want you to know'')],
      liti (js ''repost''), liti (js ''viral''), liti (js ''double your money''), liti (js ''miracle trick'')]"

definition kbEntryScore :: "jsstring \<Rightarrow> kind \<Rightarrow> emailMode option \<Rightarrow> kb_entry \<Rightarrow> int" where
  "kbEntryScore text kind mode e =
     (\<Sum>tag \<leftarrow> kb_tags e.
        if length (toLowerCase tag) \<ge> 3 \<and> includesStr (toLowerCase text) (toLowerCase tag) then 3 else 0)
     + (if kb_id e = (js ''format_not_email'') \<and> kind = KEmail \<and> \<not> looksLikeEmail text
           \<and> test ragSocialRegex text then 12 else 0)
     + (if mode = Some Work \<and> kb_id e = (js ''ceo_gift_cards'') then 1 else 0)"

text \<open>\<open>retrieveKb(text, kind, emailMode)\<close> with the default \<open>k = 4\<close>.\<close>

definition retrieveKb :: "kb_entry list \<Rightarrow> jsstring \<Rightarrow> kind \<Rightarrow> emailMode option \<Rightarrow> kb_entry list" where
  "retrieveKb kb text kind mode =
     map fst (take 4 (sort_key (\<lambda>x. - snd x)
       (filter (\<lambda>x. snd x > 0) (map (\<lambda>e. (e, kbEntryScore text kind mode e)) kb))))"

definition kbRiskBoost :: "kb_entry list \<Rightarrow> real" where
  "kbRiskBoost entries = foldl (\<lambda>sum e. sum + risk_boost e) 0 entries"

definition kbMinRisk :: "kb_entry list \<Rightarrow> real" where
  "kbMinRisk entries =
     foldl (\<lambda>m e. max m (case min_risk e of None \<Rightarrow> 0 | Some v \<Rightarrow> v)) 0 entries"

section \<open>The analyze route\<close>

record entities =
  urls :: "jsstring list"
  phone_numbers :: "jsstring list"
  emails :: "jsstring list"

text \<open>
  The response body of a successful request, and the shape \<open>AnalyzeSchema\<close> validates
  the model's answer against. The oldest route variant answers with \<open>analysis_base\<close>;
  the later ones add \<open>attack_types\<close>.
\<close>

record analysis_base =
  risk_score :: real
  verdict :: verdict
  tactics :: "technique list"
  suspicious_spans :: "span list"
  extracted :: entities
  next_steps :: "jsstring list"
  safe_reply :: jsstring
  summary :: jsstring

record analysis = analysis_base +
  attack_types :: "attack_type list"

text \<open>
  A member of a parsed JSON object, as a schema sees it: absent, present with a value of
  another type than the schema wants, or present with a value of that type.
\<close>

datatype 'a field = Missing | IllTyped | Val 'a

record raw_body =
  r_kind :: "jsstring field"
  r_text :: "jsstring field"
  r_emailMode :: "jsstring field"
  r_senderEmail :: "jsstring field"

record body =
  b_kind :: kind
  b_text :: jsstring
  b_emailMode :: "emailMode option"

text \<open>
  \<open>BodySchema.parse\<close>: \<open>kind\<close> is one of three names and defaults to \<open>text\<close>, \<open>text\<close> is
  a string of at least 3 code units, \<open>emailMode\<close> and \<open>senderEmail\<close> are optional.
  \<open>None\<close> is the \<open>ZodError\<close> it throws.
\<close>

definition parseKind :: "jsstring field \<Rightarrow> kind option" where
  "parseKind f =
     (case f of
        Missing \<Rightarrow> Some KText
      | IllTyped \<Rightarrow> None
      | Val s \<Rightarrow> if s = (js ''text'') then Some KText
                 else if s = (js ''email'') then Some KEmail
                 else if s = (js ''social'') then Some KSocial
                 else None)"

definition parseEmailMode :: "jsstring field \<Rightarrow> emailMode option option" where
  "parseEmailMode f =
     (case f of
        Missing \<Rightarrow> Some None
      | IllTyped \<Rightarrow> None
      | Val s \<Rightarrow> if s = (js ''personal'') then Some (Some Personal)
                 else if s = (js ''work'') then Some (Some Work)
                 else None)"

definition BodySchema_parse :: "raw_body \<Rightarrow> body option" where
  "BodySchema_parse rb =
     (case (parseKind (r_kind rb), r_text rb, parseEmailMode (r_emailMode rb)) of
        (Some k, Val t, Some m) \<Rightarrow>
          if length t \<ge> 3 \<and> r_senderEmail rb \<noteq> IllTyped
          then Some \<lparr>b_kind = k, b_text = t, b_emailMode = m\<rparr>
          else None
      | _ \<Rightarrow> None)"

record entities_json =
  ej_urls :: "jsstring list field"
  ej_phone_numbers :: "jsstring list field"
  ej_emails :: "jsstring list field"

record ai_json =
  j_risk_score :: "real field"
  j_verdict :: "jsstring field"
  j_tactics :: "technique list field"
  j_suspicious_spans :: "span list field"
  j_extracted :: "entities_json field"
  j_attack_types :: "attack_type list field"
  j_next_steps :: "jsstring list field"
  j_safe_reply :: "jsstring field"
  j_summary :: "jsstring field"

text \<open>What \<open>JSON.parse\<close> returns: an object, or a value that is not one.\<close>

datatype parsed = NotObject | Object ai_json

definition parseVerdict :: "jsstring field \<Rightarrow> verdict option" where
  "parseVerdict f =
     (case f of
        Val s \<Rightarrow> if s = (js ''harmless'') then Some Harmless
                 else if s = (js ''suspicious'') then Some Suspicious
                 else if s = (js ''dangerous'') then Some Dangerous
                 else None
      | _ \<Rightarrow> None)"

text \<open>\<open>.default(d)\<close>: the default for an absent member, the value for a well-typed one.\<close>

definition withDefault :: "'a \<Rightarrow> 'a field \<Rightarrow> 'a option" where
  "withDefault d f = (case f of Missing \<Rightarrow> Some d | IllTyped \<Rightarrow> None | Val v \<Rightarrow> Some v)"

definition required :: "'a field \<Rightarrow> 'a option" where
  "required f = (case f of Val v \<Rightarrow> Some v | _ \<Rightarrow> None)"

text \<open>\<open>z.number().int()\<close>\<close>

definition isInteger :: "real \<Rightarrow> bool" where
  "isInteger x = (of_int \<lfloor>x\<rfloor> = x)"

definition inRange :: "real \<Rightarrow> bool" where
  "inRange x = (0 \<le> x \<and> x \<le> 100)"

definition parseEntities :: "entities_json \<Rightarrow> entities option" where
  "parseEntities e =
     (case (withDefault [] (ej_urls e), withDefault [] (ej_phone_numbers e), withDefault [] (ej_emails e)) of
        (Some u, Some p, Some m) \<Rightarrow> Some \<lparr>urls = u, phone_numbers = p, emails = m\<rparr>
      | _ \<Rightarrow> None)"

definition noEntities :: entities where
  "noEntities = \<lparr>urls = [], phone_numbers = [], emails = []\<rparr>"

text \<open>
  \<open>AnalyzeSchema.parse\<close> of the variant with the knowledge base: a score and the
  confidences in \<open>[0, 100]\<close>, whole-numbered span bounds, a verdict of the enumeration;
  every member but the score and the verdict has a default. \<open>None\<close> is the \<open>ZodError\<close>.
\<close>

definition AnalyzeSchema_parse :: "parsed \<Rightarrow> analysis option" where
  "AnalyzeSchema_parse v =
     (case v of
        NotObject \<Rightarrow> None
      | Object j \<Rightarrow>
          (case (required (j_risk_score j), parseVerdict (j_verdict j),
                 withDefault [] (j_tactics j), withDefault [] (j_suspicious_spans j),
                 (case j_extracted j of Missing \<Rightarrow> Some noEntities | IllTyped \<Rightarrow> None
                    | Val e \<Rightarrow> parseEntities e),
                 withDefault [] (j_attack_types j), withDefault [] (j_next_steps j),
                 withDefault [] (j_safe_reply j), withDefault [] (j_summary j)) of
             (Some score, Some vd, Some ts, Some sps, Some ex, Some ats, Some ns, Some sr, Some sm) \<Rightarrow>
               if inRange score \<and> list_all (\<lambda>t. inRange (tc_confidence t)) ts
                  \<and> list_all (\<lambda>s. isInteger (s_start s) \<and> isInteger (s_end s)) sps
                  \<and> list_all (\<lambda>a. inRange (at_confidence a)) ats
               then Some \<lparr>risk_score = score, verdict = vd, tactics = ts, suspicious_spans = sps,
                          extracted = ex, next_steps = ns, safe_reply = sr, summary = sm,
                          attack_types = ats\<rparr>
               else None
           | _ \<Rightarrow> None))"

definition workEmailAdvice :: "jsstring list" where
  "workEmailAdvice =
     [js ''Do not click links or open attachments from this email.'',
      (js ''Verify via an official channel (company directory/known number/official portal) '' @ [mdash] @ js '' not by replying.''),
      js ''Never share passwords, MFA/OTP codes, or approve unexpected sign-in prompts.'',
      js ''Report it to your security/IT team using the phishing report button or a ticket.'',
      js ''If you already clicked, change passwords via the official portal and notify IT immediately.'']"

definition personalEmailAdvice :: "jsstring list" where
  "personalEmailAdvice =
     [(js ''Don'' @ [rsquo] @ js ''t click links or download files from the message.''),
      (js ''Open the official app/site directly to verify (don'' @ [rsquo] @ js ''t use the message link).''),
      js ''Never share OTP codes, passwords, or banking information.'',
      js ''Block/report the sender as spam/phishing.'']"

definition switchTabStep :: jsstring where
  "switchTabStep =
     (js ''This doesn'' @ [rsquo] @ js ''t look like an email '' @ [mdash] @ js '' switch to Social (or Text) tab for accurate analysis.'')"

definition mismatchSteps :: "jsstring list" where
  "mismatchSteps =
     [switchTabStep,
      js ''Do not reshare. Virality pressure is a manipulation tactic.'',
      (js ''Avoid '' @ [lsquo] @ js ''link in bio'' @ [rsquo] @ js ''/short links; verify with trusted sources.''),
      js ''Report/block the account if it pushes money or secrecy.'']"

text \<open>Line 264.\<close>

definition kindMismatch :: "body \<Rightarrow> bool" where
  "kindMismatch b =
     (b_kind b = KEmail \<and> \<not> looksLikeEmail (b_text b) \<and> looksLikeSocial (b_text b))"

text \<open>\<open>Math.round\<close> rounds halves upwards, as \<open>round\<close> does.\<close>

definition Math_round :: "real \<Rightarrow> real" where
  "Math_round x = of_int (round x)"

text \<open>
  The three adjustments both paths apply to their score: the capped retrieval boost,
  the minimum the knowledge base asks for, the floor of a kind mismatch
  (lines 288 to 294 and 350 to 356).
\<close>

definition adjustScore :: "kb_entry list \<Rightarrow> bool \<Rightarrow> real \<Rightarrow> real" where
  "adjustScore kbHits mismatch score0 =
     (let ragBoost = kbRiskBoost kbHits;
          ragMinRisk = kbMinRisk kbHits;
          score1 = min 100 (score0 + min 25 (Math_round (ragBoost / 3)));
          score2 = (if ragMinRisk \<noteq> 0 then max score1 ragMinRisk else score1)
      in if mismatch then max score2 70 else score2)"

text \<open>\<open>kbHits[0]?.safe_reply_template || other\<close>\<close>

definition kbReplyOr :: "kb_entry list \<Rightarrow> jsstring \<Rightarrow> jsstring" where
  "kbReplyOr kbHits other =
     (case kbHits of
        [] \<Rightarrow> other
      | e # _ \<Rightarrow> if safe_reply_template e \<noteq> [] then safe_reply_template e else other)"

text \<open>The object \<open>fallback\<close> of lines 296 to 329.\<close>

definition fallback :: "kb_entry list \<Rightarrow> body \<Rightarrow> analysis" where
  "fallback kb b =
     (let signals = extractSignals (b_text b);
          attackTypesHeuristic = buildAttackTypesHeuristic (b_kind b) (b_text b) (sg_urls signals);
          kbHits = retrieveKb kb (b_text b) (b_kind b) (b_emailMode b);
          fallbackScore = adjustScore kbHits (kindMismatch b) (heuristic_score signals)
      in \<lparr>risk_score = fallbackScore,
          verdict = verdictFromScore fallbackScore,
          tactics = heuristic_tactics signals,
          suspicious_spans = sg_suspicious_spans signals,
          extracted = \<lparr>urls = sg_urls signals, phone_numbers = sg_phone_numbers signals,
                       emails = sg_emails signals\<rparr>,
          next_steps =
            (if kindMismatch b then mismatchSteps
             else if b_kind b = KEmail then
               (if b_emailMode b = Some Work then workEmailAdvice else personalEmailAdvice)
             else if b_kind b = KSocial then
               [(js ''Don'' @ [rsquo] @ js ''t reshare immediately '' @ [mdash] @ js '' verify via reliable sources.''),
                js ''Watch for engagement bait language.'',
                js ''Report impersonation/scam content.'']
             else
               [(js ''Don'' @ [rsquo] @ js ''t click links or share codes.''),
                js ''Verify via official app/site.'',
                js ''Block/report if suspicious.'']),
          safe_reply = kbReplyOr kbHits
            (if b_kind b = KEmail then
               (if b_emailMode b = Some Work
                then (js ''I can'' @ [rsquo] @ js ''t act on this request. I'' @ [rsquo] @ js ''ll verify through official company channels before doing anything.'')
                else (js ''I can'' @ [rsquo] @ js ''t act on this request. I'' @ [rsquo] @ js ''ll verify through the official website/app.''))
             else (js ''I can'' @ [rsquo] @ js ''t act on this. I'' @ [rsquo] @ js ''ll verify through official channels first.'')),
          summary =
            (if kindMismatch b
             then (js ''This doesn'' @ [rsquo] @ js ''t look like an email '' @ [mdash] @ js '' it reads like a viral/social post (engagement bait + unrealistic money claims). Treat as high-risk spam.'')
             else if fallbackScore \<ge> 35
             then (js ''This message shows common scam patterns and should be treated with caution.'')
             else (js ''This message has low scam indicators based on quick checks.'')),
          attack_types = attackTypesHeuristic\<rparr>)"

text \<open>\<open>Array.from(new Set(xs))\<close>: the first occurrence of each element, in order.\<close>

definition setFrom :: "'a list \<Rightarrow> 'a list" where
  "setFrom xs = foldl (\<lambda>seen x. if x \<in> set seen then seen else seen @ [x]) [] xs"

text \<open>
  The response of lines 346 to 391, for a model answer \<open>ai\<close> that passed the schema.
  The blend \<open>0.55 * ai.risk_score + 0.45 * heuristic_score\<close> is the exact value here;
  the code computes it in doubles, so where the exact blend lies within a rounding
  error of a half, \<open>Math.round\<close> of the code and of the model can differ by one.
\<close>

definition blended :: "kb_entry list \<Rightarrow> body \<Rightarrow> analysis \<Rightarrow> analysis" where
  "blended kb b ai =
     (let signals = extractSignals (b_text b);
          attackTypesHeuristic = buildAttackTypesHeuristic (b_kind b) (b_text b) (sg_urls signals);
          kbHits = retrieveKb kb (b_text b) (b_kind b) (b_emailMode b);
          score = adjustScore kbHits (kindMismatch b)
                    (Math_round (55 / 100 * risk_score ai + 45 / 100 * heuristic_score signals))
      in ai\<lparr>risk_score := score,
            verdict := verdictFromScore score,
            summary :=
              (if kindMismatch b
                  \<and> \<not> includesStr (toLowerCase (summary ai)) (js ''doesn'' @ [rsquo] @ js ''t look like an email'')
                  \<and> \<not> includesStr (toLowerCase (summary ai)) (js ''doesn't look like an email'')
               then (js ''This doesn'' @ [rsquo] @ js ''t look like an email format. '') @ summary ai
               else summary ai),
            safe_reply := kbReplyOr kbHits (safe_reply ai),
            extracted :=
              \<lparr>urls = take 40 (setFrom (urls (extracted ai) @ sg_urls signals)),
               phone_numbers = take 40 (setFrom (phone_numbers (extracted ai) @ sg_phone_numbers signals)),
               emails = take 40 (setFrom (emails (extracted ai) @ sg_emails signals))\<rparr>,
            suspicious_spans :=
              (if suspicious_spans ai \<noteq> [] then suspicious_spans ai else sg_suspicious_spans signals),
            attack_types := take 6 (if attack_types ai \<noteq> [] then attack_types ai else attackTypesHeuristic),
            next_steps :=
              (if kindMismatch b then take 10 (mismatchSteps @ next_steps ai)
               else take 10 (next_steps ai))\<rparr>)"

text \<open>
  Everything the handler catches becomes the body \<open>{ error }\<close> with status 400; the
  constructors name what was thrown.
\<close>

datatype failure =
    RequestJsonError
  | BodySchemaError
  | ModelCallError
  | JsonSyntaxError
  | AnalyzeSchemaError

text \<open>
  The outcome of \<open>client.chat.completions.create\<close>: it throws, or it answers with
  \<open>choices[0]?.message?.content\<close>, which may be absent.
\<close>

datatype completion = Throws | Content "jsstring option"

text \<open>
  \<open>POST\<close> of the variant with the knowledge base. The environment is passed in:
  the knowledge base \<open>kb\<close>; \<open>JSON_parse\<close>, where \<open>None\<close> is the \<open>SyntaxError\<close> that
  \<open>JSON.parse\<close> throws; \<open>client\<close>, which is \<open>None\<close> when \<open>OPENAI_API_KEY\<close> is not set and
  else the outcome of the one call the handler makes; and \<open>req\<close>, the result of
  \<open>req.json()\<close> (\<open>None\<close> when it throws). The prompt is an argument of the call only
  and is left out.
\<close>

definition POST ::
  "kb_entry list \<Rightarrow> (jsstring \<Rightarrow> parsed option) \<Rightarrow> completion option \<Rightarrow> raw_body option
     \<Rightarrow> failure + analysis" where
  "POST kb JSON_parse client req =
     (case req of
        None \<Rightarrow> Inl RequestJsonError
      | Some rb \<Rightarrow>
          (case BodySchema_parse rb of
             None \<Rightarrow> Inl BodySchemaError
           | Some b \<Rightarrow>
               (case client of
                  None \<Rightarrow> Inr (fallback kb b)
                | Some Throws \<Rightarrow> Inl ModelCallError
                | Some (Content c) \<Rightarrow>
                    (case JSON_parse (case c of None \<Rightarrow> (js ''{}'') | Some raw \<Rightarrow> raw) of
                       None \<Rightarrow> Inl JsonSyntaxError
                     | Some v \<Rightarrow>
                         (case AnalyzeSchema_parse v of
                            None \<Rightarrow> Inl AnalyzeSchemaError
                          | Some ai \<Rightarrow> Inr (blended kb b ai))))))"

section \<open>The oldest route variant\<close>

text \<open>
  \<open>src/app/api/analyze/route.ts\<close> has no knowledge base, no attack types and no mismatch
  test; its tables and weights differ, and it is the variant that looks for a JSON
  object inside a model answer that does not parse. Its URL pattern wants a path after
  a bare domain:
  \<^verbatim>\<open>/(https?:\/\/[^\s)]+)|(\b[a-zA-Z0-9.-]+\.[a-zA-Z]{2,}\/[^\s)]+)|(\bbit\.ly\/[^\s)]+)/gi\<close>.
\<close>

definition urlRegex_v1 :: re where
  "urlRegex_v1 = alts
     [seqs [liti (js ''http''), Opt (liti (js ''s'')), lit (js ''://''), rePlus (Chr notSpaceParen)],
      seqs [WordB, rePlus (Chr domainChar), lit (js ''.''), Chr isAlpha, Chr isAlpha, Star (Chr isAlpha),
            lit (js ''/''), rePlus (Chr notSpaceParen)],
      seqs [WordB, liti (js ''bit''), lit (js ''.''), liti (js ''ly''), lit (js ''/''),
            rePlus (Chr notSpaceParen)]]"

definition urgencyPhrases_v1 :: "jsstring list" where
  "urgencyPhrases_v1 =
     [js ''act now'', js ''urgent'', js ''immediately'', js ''within 24 hours'',
      js ''final notice'', js ''asap'']"

definition fearPhrases_v1 :: "jsstring list" where
  "fearPhrases_v1 =
     [js ''legal action'', js ''account suspended'', js ''locked'', js ''security alert'',
      js ''warrant'', js ''police'']"

definition authorityPhrases_v1 :: "jsstring list" where
  "authorityPhrases_v1 =
     [js ''irs'', js ''bank'', js ''support'', js ''microsoft'', js ''apple'', js ''payroll'',
      js ''hr'', js ''ceo'']"

definition moneyPhrases_v1 :: "jsstring list" where
  "moneyPhrases_v1 =
     [js ''gift card'', js ''wire'', js ''bitcoin'', js ''crypto'', js ''payment'',
      js ''invoice'', js ''refund'', js ''owe'']"

definition otpPhrases_v1 :: "jsstring list" where
  "otpPhrases_v1 =
     [js ''verification code'', js ''otp'', js ''2fa'', js ''send the code'', js ''code we sent'']"

definition rewardPhrases_v1 :: "jsstring list" where
  "rewardPhrases_v1 =
     [js ''winner'', js ''free'', js ''bonus'', js ''claim'', js ''prize'', js ''reward'']"

record hits_v1 =
  h1_urls :: "jsstring list"
  urgencyHits_v1 :: "jsstring list"
  fearHits_v1 :: "jsstring list"
  authorityHits_v1 :: "jsstring list"
  moneyHits_v1 :: "jsstring list"
  otpHits_v1 :: "jsstring list"
  rewardHits_v1 :: "jsstring list"

definition collectHits_v1 :: "jsstring list \<Rightarrow> jsstring \<Rightarrow> hits_v1" where
  "collectHits_v1 urlList lower =
     \<lparr>h1_urls = urlList,
      urgencyHits_v1 = filter (includesStr lower) urgencyPhrases_v1,
      fearHits_v1 = filter (includesStr lower) fearPhrases_v1,
      authorityHits_v1 = filter (includesStr lower) authorityPhrases_v1,
      moneyHits_v1 = filter (includesStr lower) moneyPhrases_v1,
      otpHits_v1 = filter (includesStr lower) otpPhrases_v1,
      rewardHits_v1 = filter (includesStr lower) rewardPhrases_v1\<rparr>"

definition keywordScore_v1 :: "hits_v1 \<Rightarrow> real" where
  "keywordScore_v1 h =
     min 100
       (0 + (if h1_urls h \<noteq> [] then 18 else 0)
          + (if list_ex (\<lambda>u. includesStr (toLowerCase u) (js ''bit.ly'')
                            \<or> includesStr (toLowerCase u) (js ''tinyurl'')) (h1_urls h) then 10 else 0)
          + (if moneyHits_v1 h \<noteq> [] then 18 else 0)
          + (if otpHits_v1 h \<noteq> [] then 22 else 0)
          + (if urgencyHits_v1 h \<noteq> [] then 12 else 0)
          + (if fearHits_v1 h \<noteq> [] then 12 else 0)
          + (if authorityHits_v1 h \<noteq> [] then 8 else 0)
          + (if rewardHits_v1 h \<noteq> [] then 10 else 0))"

definition buildTactics_v1 :: "hits_v1 \<Rightarrow> technique list" where
  "buildTactics_v1 h =
        (if urgencyHits_v1 h \<noteq> [] then [mkTactic (js ''Urgency'') 80
            (js ''Pressure to act quickly reduces careful thinking.'') (take 3 (urgencyHits_v1 h))] else [])
      @ (if fearHits_v1 h \<noteq> [] then [mkTactic (js ''Fear'') 80
            (js ''Threat language pushes panic decisions.'') (take 3 (fearHits_v1 h))] else [])
      @ (if authorityHits_v1 h \<noteq> [] then [mkTactic (js ''Authority'') 70
            (js ''Impersonation of trusted roles/orgs increases compliance.'') (take 3 (authorityHits_v1 h))] else [])
      @ (if moneyHits_v1 h \<noteq> [] then [mkTactic (js ''Money Hook'') 80
            (js ''Payment/refund themes are common scam patterns.'') (take 3 (moneyHits_v1 h))] else [])
      @ (if otpHits_v1 h \<noteq> [] then [mkTactic (js ''Code Theft'') 90
            (js ''Asking for verification codes is a major red flag.'') (take 3 (otpHits_v1 h))] else [])
      @ (if rewardHits_v1 h \<noteq> [] then [mkTactic (js ''Reward Bait'') 70
            (js ''Prizes/free offers lure clicks and data sharing.'') (take 3 (rewardHits_v1 h))] else [])"

definition spanPhrases_v1 :: "phrase list" where
  "spanPhrases_v1 =
     [mkPhrase (js ''Urgency'') (js ''urgent'') (js ''High-pressure wording.''),
      mkPhrase (js ''Urgency'') (js ''immediately'') (js ''Pushes fast action.''),
      mkPhrase (js ''Urgency'') (js ''within 24 hours'') (js ''Artificial deadline.''),
      mkPhrase (js ''Authority'') (js ''hr'') (js ''Impersonation of an authority.''),
      mkPhrase (js ''Authority'') (js ''bank'') (js ''Impersonation of a trusted org.''),
      mkPhrase (js ''Authority'') (js ''irs'') (js ''Common authority-scam pattern.''),
      mkPhrase (js ''Tech Trick'') (js ''verification code'') (js ''Code theft red flag.''),
      mkPhrase (js ''Tech Trick'') (js ''otp'') (js ''Never share one-time codes.''),
      mkPhrase (js ''Reward'') (js ''winner'') (js ''Prize bait.''),
      mkPhrase (js ''Reward'') (js ''claim'') (js ''Bait wording to drive action.'')]"

definition extractSignals_v1 :: "jsstring \<Rightarrow> signals" where
  "extractSignals_v1 text =
     (let h = collectHits_v1 (take 30 (matchAll urlRegex_v1 text)) (toLowerCase text)
      in \<lparr>sg_urls = h1_urls h,
          sg_emails = take 30 (matchAll emailRegex text),
          sg_phone_numbers = take 30 (matchAll phoneRegex text),
          heuristic_score = keywordScore_v1 h,
          heuristic_tactics = buildTactics_v1 h,
          sg_suspicious_spans = findSpans_v1 text spanPhrases_v1\<rparr>)"

text \<open>\<open>BodySchema\<close> of this variant: \<open>kind\<close> as before, a text of at least 5 code units.\<close>

definition BodySchema_parse_v1 :: "raw_body \<Rightarrow> body option" where
  "BodySchema_parse_v1 rb =
     (case (parseKind (r_kind rb), r_text rb) of
        (Some k, Val t) \<Rightarrow>
          if length t \<ge> 5 then Some \<lparr>b_kind = k, b_text = t, b_emailMode = None\<rparr> else None
      | _ \<Rightarrow> None)"

text \<open>
  \<open>AnalyzeSchema\<close> of this variant: every member is required, span bounds are numbers
  that are not negative.
\<close>

definition AnalyzeSchema_parse_v1 :: "parsed \<Rightarrow> analysis_base option" where
  "AnalyzeSchema_parse_v1 v =
     (case v of
        NotObject \<Rightarrow> None
      | Object j \<Rightarrow>
          (case (required (j_risk_score j), parseVerdict (j_verdict j),
                 required (j_tactics j), required (j_suspicious_spans j),
                 (case j_extracted j of Val e \<Rightarrow>
                    (case (required (ej_urls e), required (ej_phone_numbers e), required (ej_emails e)) of
                       (Some u, Some p, Some m) \<Rightarrow> Some \<lparr>urls = u, phone_numbers = p, emails = m\<rparr>
                     | _ \<Rightarrow> None)
                  | _ \<Rightarrow> None),
                 required (j_next_steps j), required (j_safe_reply j), required (j_summary j)) of
             (Some score, Some vd, Some ts, Some sps, Some ex, Some ns, Some sr, Some sm) \<Rightarrow>
               if inRange score \<and> list_all (\<lambda>t. inRange (tc_confidence t)) ts
                  \<and> list_all (\<lambda>s. 0 \<le> s_start s \<and> 0 \<le> s_end s) sps
               then Some \<lparr>risk_score = score, verdict = vd, tactics = ts, suspicious_spans = sps,
                          extracted = ex, next_steps = ns, safe_reply = sr, summary = sm\<rparr>
               else None
           | _ \<Rightarrow> None))"

text \<open>The object \<open>fallback\<close> of lines 174 to 204.\<close>

definition fallback_v1 :: "body \<Rightarrow> analysis_base" where
  "fallback_v1 b =
     (let signals = extractSignals_v1 (b_text b)
      in \<lparr>risk_score = heuristic_score signals,
          verdict = verdictFromScore (heuristic_score signals),
          tactics = (if heuristic_tactics signals \<noteq> [] then heuristic_tactics signals
                     else [lowSignal]),
          suspicious_spans = sg_suspicious_spans signals,
          extracted = \<lparr>urls = sg_urls signals, phone_numbers = sg_phone_numbers signals,
                       emails = sg_emails signals\<rparr>,
          next_steps =
            (if heuristic_score signals \<ge> 35 then
               [js ''Do not click links or download attachments.'',
                js ''Verify the sender using an official website/app (not the message).'',
                js ''If it claims to be a company, contact support through official channels.'',
                js ''Never share passwords, verification codes, or banking details.'',
                js ''Report as spam/phishing in your email/SMS app.'']
             else [js ''If unsure, verify the sender through an official channel before acting.'']),
          safe_reply =
            (if heuristic_score signals \<ge> 35
             then (js ''Hi '' @ [mdash] @ js '' I can'' @ [rsquo] @ js ''t act on this message. I'' @ [rsquo] @ js ''ll verify through official channels. Please don'' @ [rsquo] @ js ''t send links or codes.'')
             else (js ''Thanks '' @ [mdash] @ js '' I'' @ [rsquo] @ js ''ll verify this independently before taking any action.'')),
          summary =
            (if heuristic_score signals \<ge> 35
             then (js ''This message shows common scam patterns and should be treated with caution.'')
             else (js ''This message has low scam indicators based on quick checks.''))\<rparr>)"

text \<open>The response of lines 229 to 245, with the exact value of the blend as above.\<close>

definition blended_v1 :: "body \<Rightarrow> analysis_base \<Rightarrow> analysis_base" where
  "blended_v1 b ai =
     (let signals = extractSignals_v1 (b_text b);
          score = Math_round (55 / 100 * risk_score ai + 45 / 100 * heuristic_score signals)
      in ai\<lparr>risk_score := score,
            verdict := verdictFromScore score,
            extracted :=
              \<lparr>urls = take 30 (setFrom (urls (extracted ai) @ sg_urls signals)),
               phone_numbers = take 30 (setFrom (phone_numbers (extracted ai) @ sg_phone_numbers signals)),
               emails = take 30 (setFrom (emails (extracted ai) @ sg_emails signals))\<rparr>,
            suspicious_spans :=
              (if suspicious_spans ai \<noteq> [] then suspicious_spans ai else sg_suspicious_spans signals)\<rparr>)"

text \<open>\<open>s.lastIndexOf(needle)\<close>: the greatest position at which \<open>needle\<close> occurs.\<close>

fun search_last :: "jsstring \<Rightarrow> jsstring \<Rightarrow> nat \<Rightarrow> nat option \<Rightarrow> nat option" where
  "search_last needle [] k best = (if needle = [] then Some k else best)"
| "search_last needle (x # xs) k best =
     search_last needle xs (Suc k) (if prefix needle (x # xs) then Some k else best)"

definition lastIndexOf :: "jsstring \<Rightarrow> jsstring \<Rightarrow> nat option" where
  "lastIndexOf s needle = search_last needle s 0 None"

text \<open>
  Lines 217 to 227: the text to hand to \<open>JSON.parse\<close> a second time when the first
  call threw: the slice from the first \<open>{\<close> to the last \<open>}\<close>, if there is one
  (\<open>a >= 0 && b > a\<close>).
\<close>

definition braceSlice :: "jsstring \<Rightarrow> jsstring option" where
  "braceSlice raw =
     (case (indexOf raw (js ''{'') 0, lastIndexOf raw (js ''}'')) of
        (Some a, Some b) \<Rightarrow> if b > a then Some (slice raw a (b + 1)) else None
      | _ \<Rightarrow> None)"

definition POST_v1 ::
  "(jsstring \<Rightarrow> parsed option) \<Rightarrow> completion option \<Rightarrow> raw_body option
     \<Rightarrow> failure + analysis_base" where
  "POST_v1 JSON_parse client req =
     (case req of
        None \<Rightarrow> Inl RequestJsonError
      | Some rb \<Rightarrow>
          (case BodySchema_parse_v1 rb of
             None \<Rightarrow> Inl BodySchemaError
           | Some b \<Rightarrow>
               (case client of
                  None \<Rightarrow> Inr (fallback_v1 b)
                | Some Throws \<Rightarrow> Inl ModelCallError
                | Some (Content c) \<Rightarrow>
                    (let raw = (case c of None \<Rightarrow> [] | Some s \<Rightarrow> s) in
                     case (case JSON_parse raw of
                             Some v \<Rightarrow> Inr (Some v)
                           | None \<Rightarrow>
                               (case braceSlice raw of
                                  None \<Rightarrow> Inr None
                                | Some inner \<Rightarrow>
                                    (case JSON_parse inner of
                                       None \<Rightarrow> Inl JsonSyntaxError
                                     | Some v \<Rightarrow> Inr (Some v)))) of
                       Inl e \<Rightarrow> Inl e
                     | Inr None \<Rightarrow> Inr (fallback_v1 b)
                     | Inr (Some v) \<Rightarrow>
                         (case AnalyzeSchema_parse_v1 v of
                            None \<Rightarrow> Inl AnalyzeSchemaError
                          | Some ai \<Rightarrow> Inr (blended_v1 b ai))))))"

section \<open>Properties named by the specification\<close>

text \<open>
  The specification's reading of the span list: no two spans overlap or touch, so of
  any two spans one ends strictly before the other starts.
\<close>

fun pairwiseApart :: "span list \<Rightarrow> bool" where
  "pairwiseApart [] = True"
| "pairwiseApart (a # rest) =
     (list_all (\<lambda>b. s_end a < s_start b \<or> s_end b < s_start a) rest \<and> pairwiseApart rest)"

text \<open>
  A span is one occurrence of the phrase \<open>p\<close> in the lower-cased text: it carries the
  label and the reason of \<open>p\<close>, is as long as the lower-cased phrase, and the lower-cased
  text reads the phrase there.
\<close>

definition occurrenceOf :: "jsstring \<Rightarrow> phrase \<Rightarrow> span \<Rightarrow> bool" where
  "occurrenceOf lower p s =
     (let needle = toLowerCase (p_phrase p); k = nat \<lfloor>s_start s\<rfloor>
      in s = mkSpan p k (length needle)
         \<and> k + length needle \<le> length lower
         \<and> slice lower k (k + length needle) = needle)"

text \<open>
  Section 4.2 of the specification: the occurrences of a phrase are searched from left to
  right, each search starting at the end of the previous match. \<open>occurrenceStarts\<close>
  walks the text once: at position \<open>k\<close> it records an occurrence when the needle is a
  prefix of what is left and no earlier occurrence covers \<open>k\<close> (\<open>skip\<close> counts the code
  units of the last occurrence still to pass).
\<close>

fun occurrenceStarts :: "jsstring \<Rightarrow> jsstring \<Rightarrow> nat \<Rightarrow> nat \<Rightarrow> nat list" where
  "occurrenceStarts needle [] k skip = []"
| "occurrenceStarts needle (x # xs) k skip =
     (if skip = 0 \<and> prefix needle (x # xs)
      then k # occurrenceStarts needle xs (Suc k) (length needle - 1)
      else occurrenceStarts needle xs (Suc k) (skip - 1))"

text \<open>The spans of one phrase in a text: one span of the phrase's length per occurrence.\<close>

definition phraseSpans :: "jsstring \<Rightarrow> phrase \<Rightarrow> span list" where
  "phraseSpans text p =
     map (\<lambda>k. mkSpan p k (length (toLowerCase (p_phrase p))))
       (occurrenceStarts (toLowerCase (p_phrase p)) (toLowerCase text) 0 0)"

text \<open>The spans of one phrase: left to right, none overlapping the next, each an occurrence.\<close>

definition blockOk :: "jsstring \<Rightarrow> phrase \<Rightarrow> span list \<Rightarrow> bool" where
  "blockOk lower p blk =
     (sorted_wrt (\<lambda>a b. s_end a \<le> s_start b) blk \<and> list_all (occurrenceOf lower p) blk)"

text \<open>
  Section 4.1 of the specification describes the score as a table of categories, each
  with its phrases and its weight, read by presence: a category counts its weight when
  one of its phrases occurs, however many do.
\<close>

definition keywordTable :: "(jsstring list \<times> real) list" where
  "keywordTable =
     [(moneyPhrases, 16), (otpPhrases, 26), (credPhrases, 18), (urgencyPhrases, 10),
      (fearPhrases, 10), (authorityPhrases, 7), (rewardPhrases, 10), (attachmentPhrases, 10),
      (viralPhrases, 22), (getRichPhrases, 22)]"

definition keywordTable_v1 :: "(jsstring list \<times> real) list" where
  "keywordTable_v1 =
     [(moneyPhrases_v1, 18), (otpPhrases_v1, 22), (urgencyPhrases_v1, 12), (fearPhrases_v1, 12),
      (authorityPhrases_v1, 8), (rewardPhrases_v1, 10)]"

definition categoryHit :: "jsstring \<Rightarrow> jsstring list \<times> real \<Rightarrow> bool" where
  "categoryHit text c = list_ex (includesStr (toLowerCase text)) (fst c)"

definition contribution :: "jsstring \<Rightarrow> jsstring list \<times> real \<Rightarrow> real" where
  "contribution text c = (if categoryHit text c then snd c else 0)"

definition urlsPresent :: "jsstring \<Rightarrow> bool" where
  "urlsPresent text = (matchAll urlRegex text \<noteq> [])"

definition shortLinkPresent :: "jsstring \<Rightarrow> bool" where
  "shortLinkPresent text = list_ex (test shortLinkRegex) (take 40 (matchAll urlRegex text))"

definition urlsPresent_v1 :: "jsstring \<Rightarrow> bool" where
  "urlsPresent_v1 text = (matchAll urlRegex_v1 text \<noteq> [])"

definition shortLinkPresent_v1 :: "jsstring \<Rightarrow> bool" where
  "shortLinkPresent_v1 text =
     list_ex (\<lambda>u. includesStr (toLowerCase u) (js ''bit.ly'') \<or> includesStr (toLowerCase u) (js ''tinyurl''))
       (take 30 (matchAll urlRegex_v1 text))"



text \<open>The invariant of the tag map: its keys are distinct, and each value carries its key.\<close>

definition tagKeyed :: "(jsstring \<times> attack_type) list \<Rightarrow> bool" where
  "tagKeyed m = (distinct (map fst m) \<and> list_all (\<lambda>x. at_tag (snd x) = fst x) m)"

section \<open>Example requests\<close>

definition mkRequest :: "jsstring \<Rightarrow> jsstring \<Rightarrow> raw_body" where
  "mkRequest k t = \<lparr>r_kind = Val k, r_text = Val t, r_emailMode = Missing, r_senderEmail = Missing\<rparr>"

definition mkBody :: "kind \<Rightarrow> jsstring \<Rightarrow> body" where
  "mkBody k t = \<lparr>b_kind = k, b_text = t, b_emailMode = None\<rparr>"

text \<open>Scenario S1 of the specification.\<close>

definition lockedText :: jsstring where
  "lockedText =
     (js ''Your account will be locked in 30 minutes. Verify immediately: https://bit.ly/lock-verify'')"

text \<open>A text that starts with U+0130, the capital I with a dot above.\<close>

definition dottedText :: jsstring where
  "dottedText = 304 # (js ''urgent'')"

definition overlapText :: jsstring where
  "overlapText = (js ''irshare before it's deleted'')"

definition twiceText :: jsstring where
  "twiceText = (js ''see a.co and a.co'')"

text \<open>The sixth entry of \<open>spanPhrases\<close>, and a text that repeats its phrase.\<close>

definition otpEntry :: phrase where
  "otpEntry = mkPhrase (js ''Tech Trick'') (js ''otp'') (js ''One-time codes enable takeovers.'')"

definition otpTwice :: jsstring where
  "otpTwice = (js ''otpotp'')"

definition bioText :: jsstring where
  "bioText = (js ''link in bio'')"

definition bankText :: jsstring where
  "bankText = (js ''my bank'')"

text \<open>Two texts that differ in how many urgency phrases they hold.\<close>

definition urgentOnce :: jsstring where
  "urgentOnce = (js ''this is urgent'')"

definition urgentThrice :: jsstring where
  "urgentThrice = (js ''this is urgent, act now, asap'')"


definition emptyObject :: ai_json where
  "emptyObject =
     \<lparr>j_risk_score = Missing, j_verdict = Missing, j_tactics = Missing,
      j_suspicious_spans = Missing, j_extracted = Missing, j_attack_types = Missing,
      j_next_steps = Missing, j_safe_reply = Missing, j_summary = Missing\<rparr>"

text \<open>
  Two model answers as JSON texts, with what \<open>JSON.parse\<close> makes of them and what
  \<open>AnalyzeSchema\<close> then returns. The first names one URL and no attack types; the second
  names the same attack tag twice.
\<close>

definition plainRaw :: jsstring where
  "plainRaw =
     (js ''{'' @ [34] @ js ''risk_score'' @ [34] @ js '':50,'' @ [34] @ js ''verdict'' @ [34] @ js '':'' @ [34] @ js ''suspicious'' @ [34] @ js '','' @ [34] @ js ''extracted'' @ [34] @ js '':{'' @ [34] @ js ''urls'' @ [34] @ js '':['' @ [34] @ js ''a.co'' @ [34] @ js '']}}'')"

definition plainJson :: ai_json where
  "plainJson =
     \<lparr>j_risk_score = Val 50, j_verdict = Val (js ''suspicious''), j_tactics = Missing,
      j_suspicious_spans = Missing,
      j_extracted = Val \<lparr>ej_urls = Val [js ''a.co''], ej_phone_numbers = Missing, ej_emails = Missing\<rparr>,
      j_attack_types = Missing, j_next_steps = Missing, j_safe_reply = Missing,
      j_summary = Missing\<rparr>"

definition plainAnswer :: analysis where
  "plainAnswer =
     \<lparr>risk_score = 50, verdict = Suspicious, tactics = [], suspicious_spans = [],
      extracted = \<lparr>urls = [js ''a.co''], phone_numbers = [], emails = []\<rparr>,
      next_steps = [], safe_reply = [], summary = [], attack_types = []\<rparr>"

definition twoTagsRaw :: jsstring where
  "twoTagsRaw =
     (js ''{'' @ [34] @ js ''risk_score'' @ [34] @ js '':50,'' @ [34] @ js ''verdict'' @ [34] @ js '':'' @ [34] @ js ''suspicious'' @ [34] @ js '','' @ [34] @ js ''attack_types'' @ [34] @ js '':[{'' @ [34] @ js ''tag'' @ [34] @ js '':'' @ [34] @ js ''phishing'' @ [34] @ js '','' @ [34] @ js ''confidence'' @ [34] @ js '':90,'' @ [34] @ js ''rationale'' @ [34] @ js '':'' @ [34] @ js ''link'' @ [34] @ js ''},{'' @ [34] @ js ''tag'' @ [34] @ js '':'' @ [34] @ js ''phishing'' @ [34] @ js '','' @ [34] @ js ''confidence'' @ [34] @ js '':80,'' @ [34] @ js ''rationale'' @ [34] @ js '':'' @ [34] @ js ''login'' @ [34] @ js ''}]}'')"

definition twoTags :: "attack_type list" where
  "twoTags = [mkTag (js ''phishing'') 90 (js ''link''), mkTag (js ''phishing'') 80 (js ''login'')]"

definition twoTagsJson :: ai_json where
  "twoTagsJson =
     \<lparr>j_risk_score = Val 50, j_verdict = Val (js ''suspicious''), j_tactics = Missing,
      j_suspicious_spans = Missing, j_extracted = Missing, j_attack_types = Val twoTags,
      j_next_steps = Missing, j_safe_reply = Missing, j_summary = Missing\<rparr>"

definition twoTagsAnswer :: analysis where
  "twoTagsAnswer =
     \<lparr>risk_score = 50, verdict = Suspicious, tactics = [], suspicious_spans = [],
      extracted = \<lparr>urls = [], phone_numbers = [], emails = []\<rparr>,
      next_steps = [], safe_reply = [], summary = [], attack_types = twoTags\<rparr>"

text \<open>
  \<open>JSON.parse\<close> on the texts above: \<open>{}\<close> is the empty object, the two answers are
  their objects, and every other text (\<open>refusalText\<close> among them) makes it throw.
\<close>

definition parseTable :: "(jsstring \<times> parsed) list" where
  "parseTable =
     [((js ''{}''), Object emptyObject), (plainRaw, Object plainJson), (twoTagsRaw, Object twoTagsJson)]"

text \<open>A text with a URL that occurs twice and with words of three attack types.\<close>

definition resetText :: jsstring where
  "resetText = (js ''hr: reset your password at a.co or a.co'')"


section \<open>Facts about the span locator\<close>

lemma search_from_Some:
  "search_from needle xs k = Some j \<Longrightarrow>
     k \<le> j \<and> j - k + length needle \<le> length xs \<and> prefix needle (drop (j - k) xs)"
proof (induction xs arbitrary: k)
  case Nil
  then show ?case by (simp split: if_splits)
next
  case (Cons x xs)
  show ?case
  proof (cases "prefix needle (x # xs)")
    case True
    with Cons.prems have "j = k" by simp
    with True show ?thesis using prefix_length_le [OF True] by simp
  next
    case False
    with Cons.prems have "search_from needle xs (Suc k) = Some j" by simp
    from Cons.IH [OF this]
    have a: "Suc k \<le> j" and b: "j - Suc k + length needle \<le> length xs"
      and c: "prefix needle (drop (j - Suc k) xs)" by auto
    from a have "j - k = Suc (j - Suc k)" by arith
    with a b c show ?thesis by simp
  qed
qed

lemma indexOf_Some:
  assumes "indexOf s needle pos = Some j" "pos \<le> length s"
  shows "pos \<le> j \<and> j + length needle \<le> length s \<and> slice s j (j + length needle) = needle"
proof -
  from assms have "search_from needle (drop pos s) pos = Some j"
    by (simp add: indexOf_def Let_def min_def)
  from search_from_Some [OF this]
  have a: "pos \<le> j" and b: "j - pos + length needle \<le> length (drop pos s)"
    and c: "prefix needle (drop (j - pos) (drop pos s))" by auto
  from a c have "prefix needle (drop j s)" by simp
  then have "take (length needle) (drop j s) = needle"
    by (auto simp: prefix_def)
  with a b assms(2) show ?thesis by (simp add: slice_def)
qed

lemma occurrenceOf_mkSpan:
  "k + length (toLowerCase (p_phrase p)) \<le> length lower \<Longrightarrow>
   slice lower k (k + length (toLowerCase (p_phrase p))) = toLowerCase (p_phrase p) \<Longrightarrow>
   occurrenceOf lower p (mkSpan p k (length (toLowerCase (p_phrase p))))"
  by (simp add: occurrenceOf_def Let_def mkSpan_def)

text \<open>
  What one run of the inner loop appends: occurrences of the phrase from \<open>idx\<close> on, each
  ending before the next starts.
\<close>

lemma scanPhrase_spans:
  "idx \<le> length lower \<Longrightarrow>
   scanPhrase cap lower (toLowerCase (p_phrase p)) p idx acc = (out, fl) \<Longrightarrow>
     \<exists>new. out = acc @ new \<and> sorted_wrt (\<lambda>a b. s_end a \<le> s_start b) new
          \<and> (\<forall>s \<in> set new. real idx \<le> s_start s \<and> occurrenceOf lower p s)"
proof (induction cap lower "toLowerCase (p_phrase p)" p idx acc arbitrary: out fl
       rule: scanPhrase.induct)
  case (1 cap lower p idx spans)
  let ?needle = "toLowerCase (p_phrase p)"
  show ?case
  proof (cases "indexOf lower ?needle idx")
    case None
    with "1.prems" have "out = spans" by (simp add: scanPhrase.simps)
    then show ?thesis by simp
  next
    case (Some found)
    let ?sp = "mkSpan p found (length ?needle)"
    from indexOf_Some [OF Some "1.prems"(1)]
    have f1: "idx \<le> found" and f2: "found + length ?needle \<le> length lower"
      and f3: "slice lower found (found + length ?needle) = ?needle" by auto
    have osp: "occurrenceOf lower p ?sp" using f2 f3 by (rule occurrenceOf_mkSpan)
    have ssp: "real idx \<le> s_start ?sp" using f1 by (simp add: mkSpan_def)
    show ?thesis
    proof (cases "cap \<le> length (spans @ [?sp])")
      case True
      with Some "1.prems" have "out = spans @ [?sp]" by (simp add: scanPhrase.simps)
      with osp ssp show ?thesis by simp
    next
      case False
      with Some "1.prems" have rec:
        "scanPhrase cap lower ?needle p (found + length ?needle) (spans @ [?sp]) = (out, fl)"
        by (simp add: scanPhrase.simps)
      from "1.hyps" [OF Some False f2 rec] obtain new where
        n1: "out = (spans @ [?sp]) @ new" and n2: "sorted_wrt (\<lambda>a b. s_end a \<le> s_start b) new"
        and n3: "\<forall>s \<in> set new. real (found + length ?needle) \<le> s_start s \<and> occurrenceOf lower p s"
        by blast
      have e: "s_end ?sp = real (found + length ?needle)" by (simp add: mkSpan_def)
      have "sorted_wrt (\<lambda>a b. s_end a \<le> s_start b) (?sp # new)"
        using n2 n3 e by simp
      moreover have "\<forall>s \<in> set (?sp # new). real idx \<le> s_start s \<and> occurrenceOf lower p s"
        using n3 osp ssp f1 by auto
      moreover have "out = spans @ (?sp # new)" using n1 by simp
      ultimately show ?thesis by blast
    qed
  qed
qed

lemma occurrenceOf_length:
  "occurrenceOf lower p s \<Longrightarrow> s_end s - s_start s = real (length (toLowerCase (p_phrase p)))"
proof -
  assume "occurrenceOf lower p s"
  then have "s = mkSpan p (nat \<lfloor>s_start s\<rfloor>) (length (toLowerCase (p_phrase p)))"
    by (simp add: occurrenceOf_def Let_def)
  then have "s_end s = real (nat \<lfloor>s_start s\<rfloor> + length (toLowerCase (p_phrase p)))"
    and "s_start s = real (nat \<lfloor>s_start s\<rfloor>)"
    by (metis mkSpan_def span.select_convs(2), metis mkSpan_def span.select_convs(1))
  then show ?thesis by simp
qed

lemma forPhrases_blocks:
  "\<exists>blocks. forPhrases cap lower ps acc = acc @ concat blocks \<and> length blocks \<le> length ps
      \<and> list_all2 (blockOk lower) (take (length blocks) ps) blocks"
proof (induction ps arbitrary: acc)
  case Nil
  have "forPhrases cap lower [] acc = acc @ concat []" by simp
  then show ?case by fastforce
next
  case (Cons p ps)
  obtain out fl where sc: "scanPhrase cap lower (toLowerCase (p_phrase p)) p 0 acc = (out, fl)"
    by (cases "scanPhrase cap lower (toLowerCase (p_phrase p)) p 0 acc") auto
  from scanPhrase_spans [OF _ sc] obtain new where
    n1: "out = acc @ new" and n2: "sorted_wrt (\<lambda>a b. s_end a \<le> s_start b) new"
    and n3: "\<forall>s \<in> set new. occurrenceOf lower p s" by auto
  have bo: "blockOk lower p new" using n2 n3 by (simp add: blockOk_def list_all_iff)
  show ?case
  proof (cases fl)
    case True
    with sc n1 have "forPhrases cap lower (p # ps) acc = acc @ concat [new]" by simp
    moreover have "list_all2 (blockOk lower) (take (length [new]) (p # ps)) [new]"
      using bo by simp
    moreover have "length [new] \<le> length (p # ps)" by simp
    ultimately show ?thesis by blast
  next
    case False
    from Cons.IH [of out] obtain bl where
      b1: "forPhrases cap lower ps out = out @ concat bl" and b2: "length bl \<le> length ps"
      and b3: "list_all2 (blockOk lower) (take (length bl) ps) bl" by blast
    from False sc b1 n1 have "forPhrases cap lower (p # ps) acc = acc @ concat (new # bl)"
      by simp
    moreover have "list_all2 (blockOk lower) (take (length (new # bl)) (p # ps)) (new # bl)"
      using bo b3 by simp
    moreover have "length (new # bl) \<le> length (p # ps)" using b2 by simp
    ultimately show ?thesis by blast
  qed
qed

text \<open>The loop of the source and the walk of \<open>occurrenceStarts\<close> find the same occurrences.\<close>

lemma occurrenceStarts_skip:
  "occurrenceStarts needle xs k s = occurrenceStarts needle (drop s xs) (k + s) 0"
proof (induction xs arbitrary: k s)
  case Nil
  show ?case by simp
next
  case (Cons x xs)
  show ?case
  proof (cases s)
    case 0
    then show ?thesis by simp
  next
    case (Suc s')
    then have "occurrenceStarts needle (x # xs) k s = occurrenceStarts needle xs (Suc k) s'"
      by simp
    also have "\<dots> = occurrenceStarts needle (drop s' xs) (Suc k + s') 0"
      by (rule Cons.IH)
    finally show ?thesis using Suc by simp
  qed
qed

lemma occurrenceStarts_search:
  assumes "needle \<noteq> []"
  shows "occurrenceStarts needle xs k 0 =
     (case search_from needle xs k of
        None \<Rightarrow> []
      | Some j \<Rightarrow> j # occurrenceStarts needle (drop (j - k + length needle) xs) (j + length needle) 0)"
proof (induction xs arbitrary: k)
  case Nil
  show ?case using assms by simp
next
  case (Cons x xs)
  show ?case
  proof (cases "prefix needle (x # xs)")
    case True
    have n: "length needle = Suc (length needle - 1)" using assms by (cases needle) simp_all
    have "occurrenceStarts needle (x # xs) k 0
            = k # occurrenceStarts needle xs (Suc k) (length needle - 1)"
      using True by simp
    also have "occurrenceStarts needle xs (Suc k) (length needle - 1)
            = occurrenceStarts needle (drop (length needle - 1) xs) (Suc k + (length needle - 1)) 0"
      by (rule occurrenceStarts_skip)
    also have "drop (length needle - 1) xs = drop (k - k + length needle) (x # xs)"
      by (subst (2) n) simp
    also have "Suc k + (length needle - 1) = k + length needle" using n by arith
    finally show ?thesis using True by simp
  next
    case False
    have "occurrenceStarts needle (x # xs) k 0 = occurrenceStarts needle xs (Suc k) 0"
      using False by simp
    also have "\<dots> = (case search_from needle xs (Suc k) of
        None \<Rightarrow> []
      | Some j \<Rightarrow> j # occurrenceStarts needle (drop (j - Suc k + length needle) xs)
                        (j + length needle) 0)"
      by (rule Cons.IH)
    finally have e: "occurrenceStarts needle (x # xs) k 0 = (case search_from needle xs (Suc k) of
        None \<Rightarrow> []
      | Some j \<Rightarrow> j # occurrenceStarts needle (drop (j - Suc k + length needle) xs)
                        (j + length needle) 0)" .
    show ?thesis
    proof (cases "search_from needle xs (Suc k)")
      case None
      with e False show ?thesis by simp
    next
      case (Some j)
      from search_from_Some [OF Some] have "Suc k \<le> j" by simp
      then have "j - k + length needle = Suc (j - Suc k + length needle)" by arith
      with e Some False show ?thesis by simp
    qed
  qed
qed

lemma occurrenceStarts_indexOf:
  assumes "needle \<noteq> []" "idx \<le> length lower"
  shows "occurrenceStarts needle (drop idx lower) idx 0 =
     (case indexOf lower needle idx of
        None \<Rightarrow> []
      | Some j \<Rightarrow> j # occurrenceStarts needle (drop (j + length needle) lower) (j + length needle) 0)"
proof -
  have i: "indexOf lower needle idx = search_from needle (drop idx lower) idx"
    using assms(2) by (simp add: indexOf_def Let_def min_def)
  show ?thesis
  proof (cases "search_from needle (drop idx lower) idx")
    case None
    then show ?thesis using occurrenceStarts_search [OF assms(1), of "drop idx lower" idx] i
      by simp
  next
    case (Some j)
    from search_from_Some [OF Some] have "idx \<le> j" by simp
    then have "drop (j - idx + length needle) (drop idx lower) = drop (j + length needle) lower"
      by (simp add: add.commute add.left_commute)
    then show ?thesis
      using occurrenceStarts_search [OF assms(1), of "drop idx lower" idx] i Some by simp
  qed
qed

lemma scanPhrase_exact:
  "needle \<noteq> [] \<Longrightarrow> idx \<le> length lower \<Longrightarrow> length acc < cap \<Longrightarrow>
   scanPhrase cap lower needle p idx acc =
     (take cap (acc @ map (\<lambda>k. mkSpan p k (length needle))
                       (occurrenceStarts needle (drop idx lower) idx 0)),
      cap \<le> length (acc @ map (\<lambda>k. mkSpan p k (length needle))
                          (occurrenceStarts needle (drop idx lower) idx 0)))"
proof (induction cap lower needle p idx acc rule: scanPhrase.induct)
  case (1 cap lower needle p idx spans)
  let ?mk = "\<lambda>k. mkSpan p k (length needle)"
  note occ = occurrenceStarts_indexOf [OF "1.prems"(1) "1.prems"(2)]
  show ?case
  proof (cases "indexOf lower needle idx")
    case None
    with occ have "occurrenceStarts needle (drop idx lower) idx 0 = []" by simp
    with None "1.prems"(3) show ?thesis by (simp add: scanPhrase.simps)
  next
    case (Some found)
    let ?rest = "occurrenceStarts needle (drop (found + length needle) lower) (found + length needle) 0"
    from occ Some have o: "occurrenceStarts needle (drop idx lower) idx 0 = found # ?rest"
      by simp
    from indexOf_Some [OF Some "1.prems"(2)] have f2: "found + length needle \<le> length lower"
      by simp
    show ?thesis
    proof (cases "cap \<le> length (spans @ [?mk found])")
      case True
      with "1.prems"(3) have c: "cap = Suc (length spans)" by simp
      from Some True have "scanPhrase cap lower needle p idx spans = (spans @ [?mk found], True)"
        by (simp add: scanPhrase.simps)
      with o c show ?thesis by simp
    next
      case False
      then have l: "length (spans @ [?mk found]) < cap" by simp
      from Some False have "scanPhrase cap lower needle p idx spans
          = scanPhrase cap lower needle p (found + length needle) (spans @ [?mk found])"
        by (simp add: scanPhrase.simps)
      also have "\<dots> = (take cap ((spans @ [?mk found]) @ map ?mk ?rest),
                         cap \<le> length ((spans @ [?mk found]) @ map ?mk ?rest))"
        by (rule "1.IH" [OF Some False "1.prems"(1) f2 l])
      finally show ?thesis using o by simp
    qed
  qed
qed

lemma forPhrases_exact:
  "list_all (\<lambda>p. toLowerCase (p_phrase p) \<noteq> []) ps \<Longrightarrow> length acc < cap \<Longrightarrow>
   forPhrases cap lower ps acc =
     take cap (acc @ concat (map (\<lambda>p. map (\<lambda>k. mkSpan p k (length (toLowerCase (p_phrase p))))
                 (occurrenceStarts (toLowerCase (p_phrase p)) lower 0 0)) ps))"
proof (induction ps arbitrary: acc)
  case Nil
  then show ?case by simp
next
  case (Cons p ps)
  let ?blk = "\<lambda>p. map (\<lambda>k. mkSpan p k (length (toLowerCase (p_phrase p))))
                 (occurrenceStarts (toLowerCase (p_phrase p)) lower 0 0)"
  from Cons.prems(1) have ne: "toLowerCase (p_phrase p) \<noteq> []"
    and rest: "list_all (\<lambda>p. toLowerCase (p_phrase p) \<noteq> []) ps" by simp_all
  have sc: "scanPhrase cap lower (toLowerCase (p_phrase p)) p 0 acc =
              (take cap (acc @ ?blk p), cap \<le> length (acc @ ?blk p))"
    using scanPhrase_exact [OF ne _ Cons.prems(2), of 0 lower p] by simp
  show ?case
  proof (cases "cap \<le> length (acc @ ?blk p)")
    case True
    with sc have "forPhrases cap lower (p # ps) acc = take cap (acc @ ?blk p)" by simp
    also have "\<dots> = take cap ((acc @ ?blk p) @ concat (map ?blk ps))" using True by simp
    finally show ?thesis by simp
  next
    case False
    then have l: "length (acc @ ?blk p) < cap" by simp
    with sc False have "forPhrases cap lower (p # ps) acc = forPhrases cap lower ps (acc @ ?blk p)"
      by simp
    also have "\<dots> = take cap ((acc @ ?blk p) @ concat (map ?blk ps))"
      by (rule Cons.IH [OF rest l])
    finally show ?thesis by simp
  qed
qed

lemma findSpans_cap_exact:
  "0 < cap \<Longrightarrow> list_all (\<lambda>p. toLowerCase (p_phrase p) \<noteq> []) phrases \<Longrightarrow>
   findSpans_cap cap text phrases = take cap (concat (map (phraseSpans text) phrases))"
proof -
  assume c: "0 < cap" and ne: "list_all (\<lambda>p. toLowerCase (p_phrase p) \<noteq> []) phrases"
  have e: "phraseSpans text = (\<lambda>p. map (\<lambda>k. mkSpan p k (length (toLowerCase (p_phrase p))))
                 (occurrenceStarts (toLowerCase (p_phrase p)) (toLowerCase text) 0 0))"
    by (rule ext) (simp add: phraseSpans_def)
  from forPhrases_exact [OF ne, of "[]" cap "toLowerCase text"] c
  show ?thesis by (simp add: findSpans_cap_def e)
qed

lemma spanPhrases_nonempty: "list_all (\<lambda>p. toLowerCase (p_phrase p) \<noteq> []) spanPhrases"
  by code_simp

lemma spanPhrases_v1_nonempty: "list_all (\<lambda>p. toLowerCase (p_phrase p) \<noteq> []) spanPhrases_v1"
  by code_simp

lemma findSpans_exact:
  "findSpans text spanPhrases = take 40 (concat (map (phraseSpans text) spanPhrases))"
  unfolding findSpans_def by (rule findSpans_cap_exact [OF _ spanPhrases_nonempty]) simp

lemma findSpans_v1_exact:
  "findSpans_v1 text spanPhrases_v1 = take 25 (concat (map (phraseSpans text) spanPhrases_v1))"
  unfolding findSpans_v1_def by (rule findSpans_cap_exact [OF _ spanPhrases_v1_nonempty]) simp

section \<open>Claims about the span locator\<close>

text \<open>
  C10. For every input text and every dictionary phrase (whose lower-cased form is not
  empty, as for every phrase of the dictionaries), the spans that the inner loop of
  \<open>findSpans\<close> appends for that phrase have strictly increasing start offsets, do not
  overlap (each ends before the next starts, because the search resumes at the end of
  the previous match), and each has the length of the lower-cased phrase.
\<close>

theorem C10_phrase_spans_ordered:
  assumes "toLowerCase (p_phrase p) \<noteq> []"
    and "scanPhrase cap (toLowerCase text) (toLowerCase (p_phrase p)) p 0 acc = (out, fl)"
  shows "\<exists>new. out = acc @ new
           \<and> sorted_wrt (\<lambda>a b. s_start a < s_start b) new
           \<and> sorted_wrt (\<lambda>a b. s_end a \<le> s_start b) new
           \<and> (\<forall>s \<in> set new. s_end s - s_start s = real (length (toLowerCase (p_phrase p))))"
proof -
  from scanPhrase_spans [OF _ assms(2)] obtain new where
    n1: "out = acc @ new" and n2: "sorted_wrt (\<lambda>a b. s_end a \<le> s_start b) new"
    and n3: "\<forall>s \<in> set new. occurrenceOf (toLowerCase text) p s" by auto
  have len: "\<forall>s \<in> set new. s_end s - s_start s = real (length (toLowerCase (p_phrase p)))"
    using n3 occurrenceOf_length by blast
  have pos: "0 < real (length (toLowerCase (p_phrase p)))" using assms(1) by simp
  have "sorted_wrt (\<lambda>a b. s_start a < s_start b) new"
  proof (rule sorted_wrt_mono_rel [OF _ n2])
    fix a b assume "a \<in> set new" "b \<in> set new" "s_end a \<le> s_start b"
    moreover from \<open>a \<in> set new\<close> len
    have "s_end a - s_start a = real (length (toLowerCase (p_phrase p)))" by blast
    ultimately show "s_start a < s_start b" using pos by linarith
  qed
  with n1 n2 len show ?thesis by blast
qed

theorem C10_witness:
  "toLowerCase (p_phrase otpEntry) \<noteq> []
   \<and> scanPhrase 40 (toLowerCase otpTwice) (toLowerCase (p_phrase otpEntry)) otpEntry 0 []
       = ([mkSpan otpEntry 0 3, mkSpan otpEntry 3 3], False)
   \<and> (\<exists>new. [mkSpan otpEntry 0 3, mkSpan otpEntry 3 3] = [] @ new
           \<and> sorted_wrt (\<lambda>a b. s_start a < s_start b) new
           \<and> sorted_wrt (\<lambda>a b. s_end a \<le> s_start b) new
           \<and> (\<forall>s \<in> set new. s_end s - s_start s = real (length (toLowerCase (p_phrase otpEntry)))))"
proof -
  have h1: "toLowerCase (p_phrase otpEntry) \<noteq> []" by code_simp
  have h2: "scanPhrase 40 (toLowerCase otpTwice) (toLowerCase (p_phrase otpEntry)) otpEntry 0 []
              = ([mkSpan otpEntry 0 3, mkSpan otpEntry 3 3], False)" by code_simp
  from C10_phrase_spans_ordered [OF h1 h2] h1 h2 show ?thesis by blast
qed

text \<open>
  C5. The offsets are computed in the lower-cased copy of the text. Lower-casing
  U+0130 yields two code units, so for the seven code units of \<open>dottedText\<close> the
  locator returns the span \<open>[2, 8)\<close>: its end lies beyond the text, and the original
  text reads \<open>rgent\<close> there, not the phrase.
\<close>

theorem C5_offsets_follow_lowercased_copy:
  "findSpans dottedText spanPhrases
     = [\<lparr>s_start = 2, s_end = 8, s_label = js ''Urgency'', s_reason = js ''High-pressure wording.''\<rparr>]
   \<and> length dottedText = 7
   \<and> slice dottedText 2 8 = js ''rgent''
   \<and> toLowerCase (slice dottedText 2 8) \<noteq> toLowerCase (js ''urgent'')"
  by code_simp

text \<open>
  Where the offsets are right. A text without U+0130 keeps its length under
  lower-casing, code unit by code unit; then every span lies within the original text,
  and the original text reads the phrase there, up to case.
\<close>

lemma toLowerCase_map:
  "304 \<notin> set t \<Longrightarrow> toLowerCase t = map (\<lambda>c. hd (lowerUnit c)) t"
  by (induction t) (auto simp: toLowerCase_def lowerUnit_def)

lemma toLowerCase_length: "304 \<notin> set t \<Longrightarrow> length (toLowerCase t) = length t"
  by (simp add: toLowerCase_map)

lemma toLowerCase_slice:
  assumes "304 \<notin> set t"
  shows "toLowerCase (slice t a b) = slice (toLowerCase t) a b"
proof -
  have "set (slice t a b) \<subseteq> set t"
    unfolding slice_def using set_take_subset set_drop_subset by fast
  with assms have "304 \<notin> set (slice t a b)" by blast
  then show ?thesis
    using assms by (simp add: toLowerCase_map) (simp add: slice_def take_map drop_map)
qed

lemma occurrence_in_original:
  assumes "304 \<notin> set t" "occurrenceOf (toLowerCase t) p s"
  shows "0 \<le> s_start s \<and> s_start s \<le> s_end s \<and> s_end s \<le> real (length t)
         \<and> toLowerCase (slice t (nat \<lfloor>s_start s\<rfloor>) (nat \<lfloor>s_end s\<rfloor>)) = toLowerCase (p_phrase p)"
proof -
  let ?k = "nat \<lfloor>s_start s\<rfloor>" and ?n = "length (toLowerCase (p_phrase p))"
  from assms(2) have s: "s = mkSpan p ?k ?n" and b: "?k + ?n \<le> length (toLowerCase t)"
    and o: "slice (toLowerCase t) ?k (?k + ?n) = toLowerCase (p_phrase p)"
    by (simp_all add: occurrenceOf_def Let_def)
  from s have st: "s_start s = real ?k" and en: "s_end s = real (?k + ?n)"
    by (metis mkSpan_def span.select_convs(1), metis mkSpan_def span.select_convs(2))
  from en have fl: "nat \<lfloor>s_end s\<rfloor> = ?k + ?n" by (metis floor_of_nat nat_int)
  from b have "?k + ?n \<le> length t" using assms(1) by (simp add: toLowerCase_length)
  then have "s_end s \<le> real (length t)" using en by simp
  moreover have "0 \<le> s_start s" "s_start s \<le> s_end s" using st en by simp_all
  moreover have "toLowerCase (slice t ?k (nat \<lfloor>s_end s\<rfloor>)) = toLowerCase (p_phrase p)"
    using o fl toLowerCase_slice [OF assms(1)] by simp
  ultimately show ?thesis by simp
qed

lemma spans_valid_without_dotted_I:
  assumes "304 \<notin> set t" "s \<in> set (findSpans_cap cap t phrases)"
  shows "\<exists>p \<in> set phrases. 0 \<le> s_start s \<and> s_start s \<le> s_end s \<and> s_end s \<le> real (length t)
           \<and> toLowerCase (slice t (nat \<lfloor>s_start s\<rfloor>) (nat \<lfloor>s_end s\<rfloor>)) = toLowerCase (p_phrase p)"
proof -
  from forPhrases_blocks [of cap "toLowerCase t" phrases "[]"] obtain blocks where
    c: "findSpans_cap cap t phrases = concat blocks" and l: "length blocks \<le> length phrases"
    and a: "list_all2 (blockOk (toLowerCase t)) (take (length blocks) phrases) blocks"
    by (auto simp: findSpans_cap_def)
  from assms(2) c obtain blk where "blk \<in> set blocks" and sb: "s \<in> set blk" by auto
  then obtain i where i: "i < length blocks" and bi: "blocks ! i = blk"
    by (auto simp: in_set_conv_nth)
  from sb bi have si: "s \<in> set (blocks ! i)" by simp
  from a i l have "blockOk (toLowerCase t) (phrases ! i) (blocks ! i)"
    by (auto simp: list_all2_conv_all_nth)
  with si have "occurrenceOf (toLowerCase t) (phrases ! i) s"
    by (simp add: blockOk_def list_all_iff)
  from occurrence_in_original [OF assms(1) this] i l show ?thesis
    by (metis nth_mem order_less_le_trans)
qed

section \<open>Facts about the route\<close>

lemma fallback_risk_score:
  "risk_score (fallback kb b) =
     adjustScore (retrieveKb kb (b_text b) (b_kind b) (b_emailMode b)) (kindMismatch b)
       (heuristic_score (extractSignals (b_text b)))"
  by (simp add: fallback_def Let_def)

lemma fallback_verdict: "verdict (fallback kb b) = verdictFromScore (risk_score (fallback kb b))"
  by (simp add: fallback_def Let_def)

lemma blended_risk_score:
  "risk_score (blended kb b ai) =
     adjustScore (retrieveKb kb (b_text b) (b_kind b) (b_emailMode b)) (kindMismatch b)
       (Math_round (55 / 100 * risk_score ai + 45 / 100 * heuristic_score (extractSignals (b_text b))))"
  by (simp add: blended_def Let_def)

lemma blended_verdict: "verdict (blended kb b ai) = verdictFromScore (risk_score (blended kb b ai))"
  by (simp add: blended_def Let_def)


lemma fallback_v1_verdict: "verdict (fallback_v1 b) = verdictFromScore (risk_score (fallback_v1 b))"
  by (simp add: fallback_v1_def Let_def)


lemma blended_v1_verdict:
  "verdict (blended_v1 b ai) = verdictFromScore (risk_score (blended_v1 b ai))"
  by (simp add: blended_v1_def Let_def)

text \<open>A successful response is the fallback object or a blend with a validated answer.\<close>

lemma POST_Inr:
  assumes "POST kb JSON_parse client req = Inr r"
  shows "\<exists>rb b. req = Some rb \<and> BodySchema_parse rb = Some b
           \<and> ((client = None \<and> r = fallback kb b)
              \<or> (\<exists>c v ai. client = Some (Content c) \<and> AnalyzeSchema_parse v = Some ai
                     \<and> r = blended kb b ai))"
  using assms
  by (auto simp: POST_def split: option.splits completion.splits)

lemma POST_v1_Inr:
  assumes "POST_v1 JSON_parse client req = Inr r"
  shows "\<exists>rb b. req = Some rb \<and> BodySchema_parse_v1 rb = Some b
           \<and> (r = fallback_v1 b
              \<or> (\<exists>c v ai. client = Some (Content c) \<and> AnalyzeSchema_parse_v1 v = Some ai
                     \<and> r = blended_v1 b ai))"
  using assms
  by (auto simp: POST_v1_def Let_def split: option.splits completion.splits sum.splits)



section \<open>Claims about the verdict\<close>

text \<open>
  C2. The verdict of \<open>verdictFromScore\<close> is dangerous exactly from 70 on, suspicious
  exactly from 35 up to 70, harmless exactly below 35; and on every path of both route
  variants modelled here (heuristic-only and blended) the verdict of a response is
  \<open>verdictFromScore\<close> of its final risk score.
\<close>

theorem C2_verdict_thresholds:
  "(verdictFromScore score = Dangerous \<longleftrightarrow> score \<ge> 70)
   \<and> (verdictFromScore score = Suspicious \<longleftrightarrow> 35 \<le> score \<and> score < 70)
   \<and> (verdictFromScore score = Harmless \<longleftrightarrow> score < 35)
   \<and> (POST kb JSON_parse client req = Inr r \<longrightarrow> verdict r = verdictFromScore (risk_score r))
   \<and> (POST_v1 JSON_parse client req = Inr r1 \<longrightarrow> verdict r1 = verdictFromScore (risk_score r1))"
proof -
  have a: "(verdictFromScore score = Dangerous \<longleftrightarrow> score \<ge> 70)
      \<and> (verdictFromScore score = Suspicious \<longleftrightarrow> 35 \<le> score \<and> score < 70)
      \<and> (verdictFromScore score = Harmless \<longleftrightarrow> score < 35)"
    by (simp add: verdictFromScore_def)
  have b: "POST kb JSON_parse client req = Inr r \<longrightarrow> verdict r = verdictFromScore (risk_score r)"
    using POST_Inr [of kb JSON_parse client req r] fallback_verdict blended_verdict by blast
  have c: "POST_v1 JSON_parse client req = Inr r1 \<longrightarrow> verdict r1 = verdictFromScore (risk_score r1)"
    using POST_v1_Inr [of JSON_parse client req r1] fallback_v1_verdict blended_v1_verdict by blast
  from a b c show ?thesis by blast
qed

lemma POST_no_client:
  "BodySchema_parse rb = Some b \<Longrightarrow> POST kb JSON_parse None (Some rb) = Inr (fallback kb b)"
  by (simp add: POST_def)

lemma POST_v1_no_client:
  "BodySchema_parse_v1 rb = Some b \<Longrightarrow> POST_v1 JSON_parse None (Some rb) = Inr (fallback_v1 b)"
  by (simp add: POST_v1_def)

lemma bank_request: "BodySchema_parse (mkRequest (js ''text'') bankText) = Some (mkBody KText bankText)"
  by code_simp

lemma bank_request_v1:
  "BodySchema_parse_v1 (mkRequest (js ''text'') bankText) = Some (mkBody KText bankText)"
  by code_simp

theorem C2_witness:
  "POST [] (map_of []) None (Some (mkRequest (js ''text'') bankText))
     = Inr (fallback [] (mkBody KText bankText))
   \<and> verdict (fallback [] (mkBody KText bankText))
       = verdictFromScore (risk_score (fallback [] (mkBody KText bankText)))
   \<and> POST_v1 (map_of []) None (Some (mkRequest (js ''text'') bankText))
       = Inr (fallback_v1 (mkBody KText bankText))
   \<and> verdict (fallback_v1 (mkBody KText bankText))
       = verdictFromScore (risk_score (fallback_v1 (mkBody KText bankText)))
   \<and> verdictFromScore 70 = Dangerous \<and> verdictFromScore 35 = Suspicious"
proof -
  have h: "POST [] (map_of []) None (Some (mkRequest (js ''text'') bankText))
             = Inr (fallback [] (mkBody KText bankText))"
    using POST_no_client [OF bank_request] .
  have h1: "POST_v1 (map_of []) None (Some (mkRequest (js ''text'') bankText))
             = Inr (fallback_v1 (mkBody KText bankText))"
    using POST_v1_no_client [OF bank_request_v1] .
  from C2_verdict_thresholds [where score = 70 and kb = "[]" and JSON_parse = "map_of []"
         and client = None and req = "Some (mkRequest (js ''text'') bankText)"
         and r = "fallback [] (mkBody KText bankText)"
         and ?r1.0 = "fallback_v1 (mkBody KText bankText)"]
       C2_verdict_thresholds [where score = 35 and kb = "[]" and JSON_parse = "map_of []"
         and client = None and req = "Some (mkRequest (js ''text'') bankText)"
         and r = "fallback [] (mkBody KText bankText)"
         and ?r1.0 = "fallback_v1 (mkBody KText bankText)"]
       h h1
  show ?thesis by simp
qed

section \<open>The blended path and the example answers\<close>

lemma POST_blended:
  "BodySchema_parse rb = Some b \<Longrightarrow>
   JSON_parse (case c of None \<Rightarrow> js ''{}'' | Some raw \<Rightarrow> raw) = Some v \<Longrightarrow>
   AnalyzeSchema_parse v = Some ai \<Longrightarrow>
   POST kb JSON_parse (Some (Content c)) (Some rb) = Inr (blended kb b ai)"
  by (simp add: POST_def)

lemma POST_Content_Inr:
  assumes "POST kb JSON_parse (Some (Content c)) req = Inr r"
  shows "\<exists>rb b v ai. req = Some rb \<and> BodySchema_parse rb = Some b
           \<and> JSON_parse (case c of None \<Rightarrow> js ''{}'' | Some raw \<Rightarrow> raw) = Some v
           \<and> AnalyzeSchema_parse v = Some ai \<and> r = blended kb b ai"
  using assms by (auto simp: POST_def split: option.splits)

lemma plain_parsed: "map_of parseTable plainRaw = Some (Object plainJson)"
  by code_simp

lemma plain_valid: "AnalyzeSchema_parse (Object plainJson) = Some plainAnswer"
  by code_simp

lemma twoTags_parsed: "map_of parseTable twoTagsRaw = Some (Object twoTagsJson)"
  by code_simp

lemma twoTags_valid: "AnalyzeSchema_parse (Object twoTagsJson) = Some twoTagsAnswer"
  by code_simp


section \<open>Claims about the exposed span list\<close>

text \<open>
  What \<open>occurrenceStarts\<close> walks over: every start it returns is a place where the
  phrase stands in the text, and every place where the phrase stands is a start or lies
  within the match that was taken just before it.
\<close>

lemma occurrenceStarts_sound:
  "j \<in> set (occurrenceStarts needle xs k s) \<Longrightarrow> k \<le> j \<and> prefix needle (drop (j - k) xs)"
proof (induction xs arbitrary: k s)
  case Nil
  then show ?case by simp
next
  case (Cons x xs)
  show ?case
  proof (cases "s = 0 \<and> prefix needle (x # xs)")
    case True
    with Cons.prems have "j = k \<or> j \<in> set (occurrenceStarts needle xs (Suc k) (length needle - 1))"
      by simp
    then show ?thesis
    proof
      assume "j = k"
      with True show ?thesis by simp
    next
      assume "j \<in> set (occurrenceStarts needle xs (Suc k) (length needle - 1))"
      from Cons.IH [OF this] have "Suc k \<le> j" and "prefix needle (drop (j - Suc k) xs)"
        by simp_all
      moreover from \<open>Suc k \<le> j\<close> have "j - k = Suc (j - Suc k)" by arith
      ultimately show ?thesis by simp
    qed
  next
    case False
    with Cons.prems have "j \<in> set (occurrenceStarts needle xs (Suc k) (s - 1))"
      by (simp split: if_splits)
    from Cons.IH [OF this] have "Suc k \<le> j" and "prefix needle (drop (j - Suc k) xs)"
      by simp_all
    moreover from \<open>Suc k \<le> j\<close> have "j - k = Suc (j - Suc k)" by arith
    ultimately show ?thesis by simp
  qed
qed

lemma occurrenceStarts_complete:
  "needle \<noteq> [] \<Longrightarrow> s \<le> i \<Longrightarrow> i \<le> length xs \<Longrightarrow> prefix needle (drop i xs) \<Longrightarrow>
   \<exists>j \<in> set (occurrenceStarts needle xs k s). j \<le> k + i \<and> k + i < j + length needle"
proof (induction xs arbitrary: k s i)
  case Nil
  then show ?case by simp
next
  case (Cons x xs)
  show ?case
  proof (cases "s = 0 \<and> prefix needle (x # xs)")
    case True
    then have o: "occurrenceStarts needle (x # xs) k s
                    = k # occurrenceStarts needle xs (Suc k) (length needle - 1)"
      by simp
    show ?thesis
    proof (cases "i < length needle")
      case True
      with o show ?thesis by simp
    next
      case False
      with Cons.prems(1) obtain i' where i: "i = Suc i'" by (cases i) simp_all
      with False Cons.prems have "length needle - 1 \<le> i'" "i' \<le> length xs"
        "prefix needle (drop i' xs)" by simp_all
      from Cons.IH [OF Cons.prems(1) this, of "Suc k"] o i show ?thesis by auto
    qed
  next
    case False
    then have o: "occurrenceStarts needle (x # xs) k s
                    = occurrenceStarts needle xs (Suc k) (s - 1)"
      by (simp only: occurrenceStarts.simps if_False)
    have "i \<noteq> 0"
    proof
      assume "i = 0"
      with Cons.prems False show False by simp
    qed
    then obtain i' where i: "i = Suc i'" by (cases i) simp_all
    with Cons.prems have "s - 1 \<le> i'" "i' \<le> length xs" "prefix needle (drop i' xs)"
      by simp_all
    from Cons.IH [OF Cons.prems(1) this, of "Suc k"] o i show ?thesis by auto
  qed
qed

text \<open>
  C4, as stated: the exposed span list contains no two overlapping or adjacent spans.
  It fails for a text in which the end of one dictionary phrase is the start of
  another: \<open>irs\<close> is found at \<open>[0, 3)\<close> and \<open>share before it's deleted\<close> at \<open>[2, 27)\<close>,
  and both spans are returned.
\<close>

theorem C4_counterexample:
  "\<not> pairwiseApart (findSpans overlapText spanPhrases)"
  by code_simp

text \<open>
  C4, amended. Nothing is merged. The span locator returns exactly this list: for each
  dictionary phrase in dictionary order, the occurrences of the lower-cased phrase in the
  lower-cased text found from left to right, each search resuming at the end of the
  previous match (\<open>phraseSpans\<close>), each occurrence one span of the phrase's length; the
  whole list is cut after the first 40 spans (25 in \<open>src/app/api/analyze/route.ts\<close>).
  The heuristic-only response exposes this list. The blended response exposes the
  model's own list, unchanged, when the model returned at least one span, and this list
  otherwise. So every successful response of either route exposes one of the two.
\<close>

theorem C4_spans_are_unmerged_occurrences:
  "findSpans t spanPhrases = take 40 (concat (map (phraseSpans t) spanPhrases))
   \<and> findSpans_v1 t spanPhrases_v1 = take 25 (concat (map (phraseSpans t) spanPhrases_v1))
   \<and> suspicious_spans (fallback kb b) = take 40 (concat (map (phraseSpans (b_text b)) spanPhrases))
   \<and> suspicious_spans (blended kb b ai) =
       (if suspicious_spans ai \<noteq> [] then suspicious_spans ai
        else take 40 (concat (map (phraseSpans (b_text b)) spanPhrases)))
   \<and> suspicious_spans (fallback_v1 b) = take 25 (concat (map (phraseSpans (b_text b)) spanPhrases_v1))
   \<and> suspicious_spans (blended_v1 b ai1) =
       (if suspicious_spans ai1 \<noteq> [] then suspicious_spans ai1
        else take 25 (concat (map (phraseSpans (b_text b)) spanPhrases_v1)))
   \<and> (POST kb JSON_parse client req = Inr r \<longrightarrow>
        (\<exists>rb b'. req = Some rb \<and> BodySchema_parse rb = Some b'
           \<and> (suspicious_spans r = take 40 (concat (map (phraseSpans (b_text b')) spanPhrases))
              \<or> (\<exists>v ai'. AnalyzeSchema_parse v = Some ai' \<and> suspicious_spans ai' \<noteq> []
                     \<and> suspicious_spans r = suspicious_spans ai'))))
   \<and> (POST_v1 JSON_parse client req = Inr r1 \<longrightarrow>
        (\<exists>rb b'. req = Some rb \<and> BodySchema_parse_v1 rb = Some b'
           \<and> (suspicious_spans r1 = take 25 (concat (map (phraseSpans (b_text b')) spanPhrases_v1))
              \<or> (\<exists>v ai'. AnalyzeSchema_parse_v1 v = Some ai' \<and> suspicious_spans ai' \<noteq> []
                     \<and> suspicious_spans r1 = suspicious_spans ai'))))"
proof -
  have fb: "suspicious_spans (fallback kb b) = take 40 (concat (map (phraseSpans (b_text b)) spanPhrases))"
    for kb b
    by (simp add: fallback_def Let_def extractSignals_def findSpans_exact)
  have bl: "suspicious_spans (blended kb b ai) =
       (if suspicious_spans ai \<noteq> [] then suspicious_spans ai
        else take 40 (concat (map (phraseSpans (b_text b)) spanPhrases)))" for kb b ai
    by (simp add: blended_def Let_def extractSignals_def findSpans_exact)
  have fb1: "suspicious_spans (fallback_v1 b) = take 25 (concat (map (phraseSpans (b_text b)) spanPhrases_v1))"
    for b
    by (simp add: fallback_v1_def Let_def extractSignals_v1_def findSpans_v1_exact)
  have bl1: "suspicious_spans (blended_v1 b ai1) =
       (if suspicious_spans ai1 \<noteq> [] then suspicious_spans ai1
        else take 25 (concat (map (phraseSpans (b_text b)) spanPhrases_v1)))" for b ai1
    by (simp add: blended_v1_def Let_def extractSignals_v1_def findSpans_v1_exact)
  have p: "POST kb JSON_parse client req = Inr r \<longrightarrow>
        (\<exists>rb b'. req = Some rb \<and> BodySchema_parse rb = Some b'
           \<and> (suspicious_spans r = take 40 (concat (map (phraseSpans (b_text b')) spanPhrases))
              \<or> (\<exists>v ai'. AnalyzeSchema_parse v = Some ai' \<and> suspicious_spans ai' \<noteq> []
                     \<and> suspicious_spans r = suspicious_spans ai')))"
  proof
    assume "POST kb JSON_parse client req = Inr r"
    from POST_Inr [OF this] obtain rb b' where
      1: "req = Some rb" "BodySchema_parse rb = Some b'"
      and 2: "(client = None \<and> r = fallback kb b')
              \<or> (\<exists>c v ai. client = Some (Content c) \<and> AnalyzeSchema_parse v = Some ai
                     \<and> r = blended kb b' ai)" by blast
    from 2 have "suspicious_spans r = take 40 (concat (map (phraseSpans (b_text b')) spanPhrases))
              \<or> (\<exists>v ai'. AnalyzeSchema_parse v = Some ai' \<and> suspicious_spans ai' \<noteq> []
                     \<and> suspicious_spans r = suspicious_spans ai')"
    proof
      assume "client = None \<and> r = fallback kb b'"
      then show ?thesis using fb by simp
    next
      assume "\<exists>c v ai. client = Some (Content c) \<and> AnalyzeSchema_parse v = Some ai
                     \<and> r = blended kb b' ai"
      then obtain v ai' where 3: "AnalyzeSchema_parse v = Some ai'" "r = blended kb b' ai'"
        by blast
      show ?thesis
      proof (cases "suspicious_spans ai' = []")
        case True
        with 3 bl [of kb b' ai'] show ?thesis by simp
      next
        case False
        with 3 bl [of kb b' ai'] have "AnalyzeSchema_parse v = Some ai' \<and> suspicious_spans ai' \<noteq> []
                     \<and> suspicious_spans r = suspicious_spans ai'" by simp
        then show ?thesis by blast
      qed
    qed
    with 1 show "\<exists>rb b'. req = Some rb \<and> BodySchema_parse rb = Some b'
           \<and> (suspicious_spans r = take 40 (concat (map (phraseSpans (b_text b')) spanPhrases))
              \<or> (\<exists>v ai'. AnalyzeSchema_parse v = Some ai' \<and> suspicious_spans ai' \<noteq> []
                     \<and> suspicious_spans r = suspicious_spans ai'))" by blast
  qed
  have p1: "POST_v1 JSON_parse client req = Inr r1 \<longrightarrow>
        (\<exists>rb b'. req = Some rb \<and> BodySchema_parse_v1 rb = Some b'
           \<and> (suspicious_spans r1 = take 25 (concat (map (phraseSpans (b_text b')) spanPhrases_v1))
              \<or> (\<exists>v ai'. AnalyzeSchema_parse_v1 v = Some ai' \<and> suspicious_spans ai' \<noteq> []
                     \<and> suspicious_spans r1 = suspicious_spans ai')))"
  proof
    assume "POST_v1 JSON_parse client req = Inr r1"
    from POST_v1_Inr [OF this] obtain rb b' where
      1: "req = Some rb" "BodySchema_parse_v1 rb = Some b'"
      and 2: "r1 = fallback_v1 b'
              \<or> (\<exists>c v ai. client = Some (Content c) \<and> AnalyzeSchema_parse_v1 v = Some ai
                     \<and> r1 = blended_v1 b' ai)" by blast
    from 2 have "suspicious_spans r1 = take 25 (concat (map (phraseSpans (b_text b')) spanPhrases_v1))
              \<or> (\<exists>v ai'. AnalyzeSchema_parse_v1 v = Some ai' \<and> suspicious_spans ai' \<noteq> []
                     \<and> suspicious_spans r1 = suspicious_spans ai')"
    proof
      assume "r1 = fallback_v1 b'"
      then show ?thesis using fb1 by simp
    next
      assume "\<exists>c v ai. client = Some (Content c) \<and> AnalyzeSchema_parse_v1 v = Some ai
                     \<and> r1 = blended_v1 b' ai"
      then obtain v ai' where 3: "AnalyzeSchema_parse_v1 v = Some ai'" "r1 = blended_v1 b' ai'"
        by blast
      show ?thesis
      proof (cases "suspicious_spans ai' = []")
        case True
        with 3 bl1 [of b' ai'] show ?thesis by simp
      next
        case False
        with 3 bl1 [of b' ai'] have "AnalyzeSchema_parse_v1 v = Some ai' \<and> suspicious_spans ai' \<noteq> []
                     \<and> suspicious_spans r1 = suspicious_spans ai'" by simp
        then show ?thesis by blast
      qed
    qed
    with 1 show "\<exists>rb b'. req = Some rb \<and> BodySchema_parse_v1 rb = Some b'
           \<and> (suspicious_spans r1 = take 25 (concat (map (phraseSpans (b_text b')) spanPhrases_v1))
              \<or> (\<exists>v ai'. AnalyzeSchema_parse_v1 v = Some ai' \<and> suspicious_spans ai' \<noteq> []
                     \<and> suspicious_spans r1 = suspicious_spans ai'))" by blast
  qed
  from findSpans_exact [of t] findSpans_v1_exact [of t] fb [of kb b] bl [of kb b ai]
       fb1 [of b] bl1 [of b ai1] p p1
  show ?thesis by (intro conjI)
qed

lemma overlap_request:
  "BodySchema_parse (mkRequest (js ''text'') overlapText) = Some (mkBody KText overlapText)"
  by code_simp

lemma overlap_request_v1:
  "BodySchema_parse_v1 (mkRequest (js ''text'') overlapText) = Some (mkBody KText overlapText)"
  by code_simp

lemma overlap_occurrences:
  "take 40 (concat (map (phraseSpans overlapText) spanPhrases))
     = [\<lparr>s_start = 0, s_end = 3, s_label = js ''Authority'',
          s_reason = js ''Common authority-scam pattern.''\<rparr>,
        \<lparr>s_start = 2, s_end = 27, s_label = js ''Viral'',
          s_reason = js ''Virality pressure tactic.''\<rparr>]"
  by code_simp

theorem C4_witness:
  "POST [] (map_of parseTable) None (Some (mkRequest (js ''text'') overlapText))
     = Inr (fallback [] (mkBody KText overlapText))
   \<and> POST_v1 (map_of parseTable) None (Some (mkRequest (js ''text'') overlapText))
     = Inr (fallback_v1 (mkBody KText overlapText))
   \<and> suspicious_spans (fallback [] (mkBody KText overlapText))
     = [\<lparr>s_start = 0, s_end = 3, s_label = js ''Authority'',
          s_reason = js ''Common authority-scam pattern.''\<rparr>,
        \<lparr>s_start = 2, s_end = 27, s_label = js ''Viral'',
          s_reason = js ''Virality pressure tactic.''\<rparr>]
   \<and> suspicious_spans (blended [] (mkBody KText overlapText) plainAnswer)
     = [\<lparr>s_start = 0, s_end = 3, s_label = js ''Authority'',
          s_reason = js ''Common authority-scam pattern.''\<rparr>,
        \<lparr>s_start = 2, s_end = 27, s_label = js ''Viral'',
          s_reason = js ''Virality pressure tactic.''\<rparr>]
   \<and> findSpans overlapText spanPhrases
     = [\<lparr>s_start = 0, s_end = 3, s_label = js ''Authority'',
          s_reason = js ''Common authority-scam pattern.''\<rparr>,
        \<lparr>s_start = 2, s_end = 27, s_label = js ''Viral'',
          s_reason = js ''Virality pressure tactic.''\<rparr>]"
proof -
  have h: "POST [] (map_of parseTable) None (Some (mkRequest (js ''text'') overlapText))
             = Inr (fallback [] (mkBody KText overlapText))"
    using POST_no_client [OF overlap_request] .
  have h1: "POST_v1 (map_of parseTable) None (Some (mkRequest (js ''text'') overlapText))
             = Inr (fallback_v1 (mkBody KText overlapText))"
    using POST_v1_no_client [OF overlap_request_v1] .
  have t: "b_text (mkBody KText overlapText) = overlapText" by (simp add: mkBody_def)
  have e: "suspicious_spans plainAnswer = []" by (simp add: plainAnswer_def)
  from C4_spans_are_unmerged_occurrences [where t = overlapText and kb = "[]"
         and b = "mkBody KText overlapText" and ai = plainAnswer and ?ai1.0 = "fallback_v1 (mkBody KText overlapText)"
         and JSON_parse = "map_of parseTable" and client = None
         and req = "Some (mkRequest (js ''text'') overlapText)"
         and r = "fallback [] (mkBody KText overlapText)"
         and ?r1.0 = "fallback_v1 (mkBody KText overlapText)"]
       h h1
  show ?thesis by (simp only: t e overlap_occurrences simp_thms if_False)
qed

section \<open>Scenario S1\<close>

lemma locked_hits:
  "collectHits (take 40 (matchAll urlRegex lockedText)) (toLowerCase lockedText) =
     \<lparr>h_urls = [js ''https://bit.ly/lock-verify''], urgencyHits = [js ''immediately''],
      fearHits = [js ''locked''], authorityHits = [], moneyHits = [], otpHits = [],
      rewardHits = [], credHits = [], attachmentHits = [], viralHits = [], getRichHits = []\<rparr>"
  by code_simp

lemma locked_short_link: "test shortLinkRegex (js ''https://bit.ly/lock-verify'')"
  by code_simp

lemma extractSignals_score:
  "heuristic_score (extractSignals t) =
     keywordScore (collectHits (take 40 (matchAll urlRegex t)) (toLowerCase t))"
  by (simp add: extractSignals_def Let_def)

lemma extractSignals_tactics:
  "heuristic_tactics (extractSignals t) =
     buildTactics (collectHits (take 40 (matchAll urlRegex t)) (toLowerCase t))"
  by (simp add: extractSignals_def Let_def)

lemma extractSignals_urls:
  "sg_urls (extractSignals t) = h_urls (collectHits (take 40 (matchAll urlRegex t)) (toLowerCase t))"
  by (simp add: extractSignals_def Let_def)

lemma locked_keywordScore:
  "keywordScore
     \<lparr>h_urls = [js ''https://bit.ly/lock-verify''], urgencyHits = [js ''immediately''],
      fearHits = [js ''locked''], authorityHits = [], moneyHits = [], otpHits = [],
      rewardHits = [], credHits = [], attachmentHits = [], viralHits = [], getRichHits = []\<rparr>
   = 46"
  by (simp add: keywordScore_def locked_short_link)

lemma locked_buildTactics:
  "map tc_name (buildTactics
     \<lparr>h_urls = [js ''https://bit.ly/lock-verify''], urgencyHits = [js ''immediately''],
      fearHits = [js ''locked''], authorityHits = [], moneyHits = [], otpHits = [],
      rewardHits = [], credHits = [], attachmentHits = [], viralHits = [], getRichHits = []\<rparr>)
   = [js ''Urgency'', js ''Fear'']"
  by (simp add: buildTactics_def mkTactic_def)

lemma locked_score: "heuristic_score (extractSignals lockedText) = 46"
  by (simp only: extractSignals_score locked_hits locked_keywordScore)

lemma locked_names:
  "map tc_name (heuristic_tactics (extractSignals lockedText)) = [js ''Urgency'', js ''Fear'']"
  by (simp only: extractSignals_tactics locked_hits locked_buildTactics)

lemma locked_urls: "sg_urls (extractSignals lockedText) = [js ''https://bit.ly/lock-verify'']"
  by (simp only: extractSignals_urls locked_hits hits.select_convs)

lemma adjustScore_no_hits: "0 \<le> s \<Longrightarrow> s \<le> 100 \<Longrightarrow> adjustScore [] False s = s"
  by (simp add: adjustScore_def Let_def kbRiskBoost_def kbMinRisk_def Math_round_def)

lemma retrieveKb_empty: "retrieveKb [] t k m = []"
  by (simp add: retrieveKb_def)

text \<open>
  C7. For the text of scenario S1 with kind \<open>text\<close>: the only categories with a hit are
  the URL (16), the shortened link (10), urgency (10, \<open>immediately\<close>) and fear (10,
  \<open>locked\<close>), so the heuristic score before any knowledge-base boost is 46; the verdict
  for 46 is suspicious; the techniques named are Urgency and Fear; the extracted URLs
  contain the bit.ly link. With an empty knowledge base the heuristic-only response
  carries that score and verdict.
\<close>

theorem C7_scenario_locked_account:
  "heuristic_score (extractSignals lockedText) = 46
   \<and> collectHits (take 40 (matchAll urlRegex lockedText)) (toLowerCase lockedText) =
       \<lparr>h_urls = [js ''https://bit.ly/lock-verify''], urgencyHits = [js ''immediately''],
        fearHits = [js ''locked''], authorityHits = [], moneyHits = [], otpHits = [],
        rewardHits = [], credHits = [], attachmentHits = [], viralHits = [], getRichHits = []\<rparr>
   \<and> test shortLinkRegex (js ''https://bit.ly/lock-verify'')
   \<and> verdictFromScore 46 = Suspicious
   \<and> js ''Urgency'' \<in> set (map tc_name (heuristic_tactics (extractSignals lockedText)))
   \<and> js ''Fear'' \<in> set (map tc_name (heuristic_tactics (extractSignals lockedText)))
   \<and> js ''https://bit.ly/lock-verify'' \<in> set (sg_urls (extractSignals lockedText))
   \<and> risk_score (fallback [] (mkBody KText lockedText)) = 46
   \<and> verdict (fallback [] (mkBody KText lockedText)) = Suspicious"
proof -
  have v: "verdictFromScore 46 = Suspicious" by (simp add: verdictFromScore_def)
  have k: "\<not> kindMismatch (mkBody KText lockedText)"
    by (simp add: kindMismatch_def mkBody_def)
  have r: "risk_score (fallback [] (mkBody KText lockedText)) = 46"
    using k by (simp add: fallback_risk_score retrieveKb_empty mkBody_def locked_score
                  adjustScore_no_hits)
  have "verdict (fallback [] (mkBody KText lockedText)) = Suspicious"
    using r v by (simp add: fallback_verdict)
  with r v show ?thesis
    by (simp only: locked_score locked_hits locked_short_link locked_names locked_urls)
       simp
qed

section \<open>Claims about the score\<close>


















section \<open>Claims about duplicates\<close>

lemma setFrom_foldl_distinct:
  "distinct seen \<Longrightarrow>
     distinct (foldl (\<lambda>seen x. if x \<in> set seen then seen else seen @ [x]) seen xs)"
  by (induction xs arbitrary: seen) auto

lemma distinct_setFrom: "distinct (setFrom xs)"
  unfolding setFrom_def by (rule setFrom_foldl_distinct) simp

lemma set_alist_update: "set (AList.update k v al) \<subseteq> insert (k, v) (set al)"
  by (induction al) auto

lemma tagKeyed_update: "tagKeyed m \<Longrightarrow> tagKeyed (AList.update (at_tag t) t m)"
  unfolding tagKeyed_def list_all_iff
  using set_alist_update [of "at_tag t" t m]
  by (auto simp: distinct_update)

lemma tagKeyed_mapSetMax: "tagKeyed m \<Longrightarrow> tagKeyed (mapSetMax m t)"
  by (simp add: mapSetMax_def tagKeyed_update split: option.splits)

lemma tagKeyed_foldl: "tagKeyed m \<Longrightarrow> tagKeyed (foldl mapSetMax m ts)"
  by (induction ts arbitrary: m) (simp_all add: tagKeyed_mapSetMax)

lemma tags_are_keys:
  "\<forall>x \<in> set m. at_tag (snd x) = fst x \<Longrightarrow> map at_tag (map snd m) = map fst m"
  by (induction m) auto

lemma tagKeyed_values: "tagKeyed m \<Longrightarrow> distinct (map at_tag (map snd m))"
proof -
  assume a: "tagKeyed m"
  then have "map at_tag (map snd m) = map fst m"
    unfolding tagKeyed_def list_all_iff using tags_are_keys by blast
  with a show ?thesis by (simp only: tagKeyed_def)
qed

lemma distinct_tags_sorted:
  "distinct (map at_tag ts) \<Longrightarrow> distinct (map at_tag (sortByConfidence ts))"
  by (simp add: sortByConfidence_def distinct_map)

lemma distinct_tags_take: "distinct (map at_tag ts) \<Longrightarrow> distinct (map at_tag (take n ts))"
  by (simp add: take_map [symmetric])

lemma distinct_heuristic_tags: "distinct (map at_tag (buildAttackTypesHeuristic k t us))"
proof -
  have "tagKeyed []" by (simp add: tagKeyed_def)
  then have "distinct (map at_tag (map snd (foldl mapSetMax [] ts)))" for ts
    using tagKeyed_foldl tagKeyed_values by blast
  then show ?thesis
    unfolding buildAttackTypesHeuristic_def Let_def
    by (intro distinct_tags_take distinct_tags_sorted)
qed

lemma fallback_attack_types:
  "attack_types (fallback kb b) =
     buildAttackTypesHeuristic (b_kind b) (b_text b) (sg_urls (extractSignals (b_text b)))"
  by (simp add: fallback_def Let_def)

lemma fallback_urls: "urls (extracted (fallback kb b)) = sg_urls (extractSignals (b_text b))"
  by (simp add: fallback_def Let_def)

lemma blended_entities:
  "distinct (urls (extracted (blended kb b ai)))
   \<and> distinct (phone_numbers (extracted (blended kb b ai)))
   \<and> distinct (emails (extracted (blended kb b ai)))"
  by (simp add: blended_def Let_def distinct_setFrom)

lemma blended_attack_types:
  "attack_types (blended kb b ai) =
     take 6 (if attack_types ai \<noteq> [] then attack_types ai
             else buildAttackTypesHeuristic (b_kind b) (b_text b) (sg_urls (extractSignals (b_text b))))"
  by (simp add: blended_def Let_def)

lemma twice_request:
  "BodySchema_parse (mkRequest (js ''text'') twiceText) = Some (mkBody KText twiceText)"
  by code_simp

lemma twice_urls: "take 40 (matchAll urlRegex twiceText) = [js ''a.co'', js ''a.co'']"
  by code_simp

lemma blended_urls:
  "urls (extracted (blended kb b ai))
     = take 40 (setFrom (urls (extracted ai) @ sg_urls (extractSignals (b_text b))))"
  by (simp add: blended_def Let_def)

text \<open>
  The heuristic-only response carries the lists of \<open>extractSignals\<close> as they were
  matched: for \<open>see a.co and a.co\<close> its \<open>extracted.urls\<close> is \<open>a.co\<close> twice. The blended
  response passes the same lists through \<open>new Set\<close>.
\<close>

lemma twice_fallback_urls:
  "urls (extracted (fallback [] (mkBody KText twiceText))) = [js ''a.co'', js ''a.co'']"
  by (simp only: fallback_urls extractSignals_urls collectHits_def hits.select_convs
        mkBody_def body.select_convs twice_urls)

lemma reset_request:
  "BodySchema_parse (mkRequest (js ''text'') resetText) = Some (mkBody KText resetText)"
  by code_simp

lemma reset_urls: "take 40 (matchAll urlRegex resetText) = [js ''a.co'', js ''a.co'']"
  by code_simp

lemma reset_tags:
  "map at_tag (buildAttackTypesHeuristic KText resetText [js ''a.co'', js ''a.co''])
     = [js ''phishing'', js ''credential harvesting'', js ''pretexting'']"
  by code_simp

lemma plain_merged_urls: "take 40 (setFrom ([js ''a.co''] @ [js ''a.co'', js ''a.co''])) = [js ''a.co'']"
  by code_simp

text \<open>
  C6, as stated: no returned result has two attack types with the same tag. On the
  blended path the attack types that the model supplies are passed on as they are, cut
  to six: when the validated answer of the model names \<open>phishing\<close> twice, so does the
  response.
\<close>

theorem C6_counterexample:
  "POST [] (map_of parseTable) (Some (Content (Some twoTagsRaw)))
       (Some (mkRequest (js ''text'') bankText))
     = Inr (blended [] (mkBody KText bankText) twoTagsAnswer)
   \<and> map at_tag (attack_types (blended [] (mkBody KText bankText) twoTagsAnswer))
       = [js ''phishing'', js ''phishing'']
   \<and> \<not> distinct (map at_tag (attack_types (blended [] (mkBody KText bankText) twoTagsAnswer)))"
proof -
  have p: "POST [] (map_of parseTable) (Some (Content (Some twoTagsRaw)))
             (Some (mkRequest (js ''text'') bankText))
           = Inr (blended [] (mkBody KText bankText) twoTagsAnswer)"
    by (rule POST_blended [OF bank_request _ twoTags_valid]) (simp add: twoTags_parsed)
  have t: "map at_tag (attack_types (blended [] (mkBody KText bankText) twoTagsAnswer))
             = [js ''phishing'', js ''phishing'']"
    by (simp add: blended_attack_types twoTagsAnswer_def twoTags_def mkTag_def)
  from p t show ?thesis by simp
qed

text \<open>
  C6, amended. On the heuristic-only path \<open>attack_types\<close> has no two entries with the
  same tag. On the blended path each of \<open>extracted.urls\<close>, \<open>extracted.phone_numbers\<close> and
  \<open>extracted.emails\<close> is free of duplicates; \<open>attack_types\<close> has no two entries with the
  same tag when the model supplies no attack types, and is the model's own list, cut
  to its first six entries, when the model supplies some.
\<close>

theorem C6_where_duplicates_are_removed:
  "(POST kb JSON_parse None req = Inr r \<longrightarrow> distinct (map at_tag (attack_types r)))
   \<and> (POST kb JSON_parse (Some (Content c)) req = Inr r' \<longrightarrow>
        distinct (urls (extracted r')) \<and> distinct (phone_numbers (extracted r'))
        \<and> distinct (emails (extracted r'))
        \<and> (\<exists>v ai. JSON_parse (case c of None \<Rightarrow> js ''{}'' | Some raw \<Rightarrow> raw) = Some v
               \<and> AnalyzeSchema_parse v = Some ai
               \<and> (if attack_types ai = [] then distinct (map at_tag (attack_types r'))
                   else attack_types r' = take 6 (attack_types ai))))"
proof (intro conjI impI)
  assume "POST kb JSON_parse None req = Inr r"
  from POST_Inr [OF this] obtain b where "r = fallback kb b" by auto
  then show "distinct (map at_tag (attack_types r))"
    by (simp add: fallback_attack_types distinct_heuristic_tags)
next
  assume a: "POST kb JSON_parse (Some (Content c)) req = Inr r'"
  from POST_Content_Inr [OF a] obtain b v ai where
    v: "JSON_parse (case c of None \<Rightarrow> js ''{}'' | Some raw \<Rightarrow> raw) = Some v"
    and ai: "AnalyzeSchema_parse v = Some ai" and r: "r' = blended kb b ai" by blast
  show "distinct (urls (extracted r'))" "distinct (phone_numbers (extracted r'))"
    "distinct (emails (extracted r'))"
    using blended_entities [of kb b ai] r by simp_all
  have "if attack_types ai = [] then distinct (map at_tag (attack_types r'))
        else attack_types r' = take 6 (attack_types ai)"
    using r by (simp add: blended_attack_types distinct_tags_take distinct_heuristic_tags)
  with v ai
  show "\<exists>v ai. JSON_parse (case c of None \<Rightarrow> js ''{}'' | Some raw \<Rightarrow> raw) = Some v
               \<and> AnalyzeSchema_parse v = Some ai
               \<and> (if attack_types ai = [] then distinct (map at_tag (attack_types r'))
                   else attack_types r' = take 6 (attack_types ai))" by blast
qed

theorem C6_witness:
  "POST [] (map_of parseTable) None (Some (mkRequest (js ''text'') resetText))
     = Inr (fallback [] (mkBody KText resetText))
   \<and> map at_tag (attack_types (fallback [] (mkBody KText resetText)))
       = [js ''phishing'', js ''credential harvesting'', js ''pretexting'']
   \<and> distinct (map at_tag (attack_types (fallback [] (mkBody KText resetText))))
   \<and> POST [] (map_of parseTable) (Some (Content (Some plainRaw)))
         (Some (mkRequest (js ''text'') resetText))
       = Inr (blended [] (mkBody KText resetText) plainAnswer)
   \<and> urls (extracted plainAnswer) = [js ''a.co'']
   \<and> sg_urls (extractSignals resetText) = [js ''a.co'', js ''a.co'']
   \<and> urls (extracted (blended [] (mkBody KText resetText) plainAnswer)) = [js ''a.co'']
   \<and> distinct (urls (extracted (blended [] (mkBody KText resetText) plainAnswer)))
   \<and> attack_types plainAnswer = []
   \<and> map at_tag (attack_types (blended [] (mkBody KText resetText) plainAnswer))
       = [js ''phishing'', js ''credential harvesting'', js ''pretexting'']
   \<and> distinct (map at_tag (attack_types (blended [] (mkBody KText resetText) plainAnswer)))"
proof -
  have h: "POST [] (map_of parseTable) None (Some (mkRequest (js ''text'') resetText))
             = Inr (fallback [] (mkBody KText resetText))"
    using POST_no_client [OF reset_request] .
  have h2: "POST [] (map_of parseTable) (Some (Content (Some plainRaw)))
              (Some (mkRequest (js ''text'') resetText))
            = Inr (blended [] (mkBody KText resetText) plainAnswer)"
    by (rule POST_blended [OF reset_request _ plain_valid]) (simp add: plain_parsed)
  have u: "sg_urls (extractSignals resetText) = [js ''a.co'', js ''a.co'']"
    by (simp only: extractSignals_urls collectHits_def hits.select_convs reset_urls)
  have pu: "urls (extracted plainAnswer) = [js ''a.co'']" by (simp add: plainAnswer_def)
  have pe: "attack_types plainAnswer = []" by (simp add: plainAnswer_def)
  have bt: "b_text (mkBody KText resetText) = resetText" "b_kind (mkBody KText resetText) = KText"
    by (simp_all add: mkBody_def)
  have t: "map at_tag (attack_types (fallback [] (mkBody KText resetText)))
             = [js ''phishing'', js ''credential harvesting'', js ''pretexting'']"
    by (simp only: fallback_attack_types bt u reset_tags)
  have bu: "urls (extracted (blended [] (mkBody KText resetText) plainAnswer)) = [js ''a.co'']"
    by (simp only: blended_urls bt u pu plain_merged_urls)
  have tb: "map at_tag (attack_types (blended [] (mkBody KText resetText) plainAnswer))
             = [js ''phishing'', js ''credential harvesting'', js ''pretexting'']"
  proof -
    have "attack_types (blended [] (mkBody KText resetText) plainAnswer)
            = take 6 (buildAttackTypesHeuristic KText resetText [js ''a.co'', js ''a.co''])"
      by (simp only: blended_attack_types bt u pe simp_thms if_False)
    then have "map at_tag (attack_types (blended [] (mkBody KText resetText) plainAnswer))
            = take 6 (map at_tag (buildAttackTypesHeuristic KText resetText [js ''a.co'', js ''a.co'']))"
      by (simp only: take_map)
    then show ?thesis by (simp add: reset_tags)
  qed
  from C6_where_duplicates_are_removed [where kb = "[]" and JSON_parse = "map_of parseTable"
         and req = "Some (mkRequest (js ''text'') resetText)"
         and r = "fallback [] (mkBody KText resetText)"
         and c = "Some plainRaw"
         and r' = "blended [] (mkBody KText resetText) plainAnswer"] h h2
  have d: "distinct (map at_tag (attack_types (fallback [] (mkBody KText resetText))))"
    and d2: "distinct (urls (extracted (blended [] (mkBody KText resetText) plainAnswer)))"
    by simp_all
  have d3: "distinct (map at_tag (attack_types (blended [] (mkBody KText resetText) plainAnswer)))"
    by (simp only: tb) (simp add: js_def)
  from h t d h2 pu u bu d2 pe tb d3 show ?thesis by (intro conjI)
qed

section \<open>The mismatch floor\<close>

lemma adjustScore_mismatch: "70 \<le> adjustScore hits True s"
  by (simp add: adjustScore_def Let_def)

lemma switchTab_first: "switchTabStep \<in> set (take 10 (mismatchSteps @ rest))"
  by (simp add: mismatchSteps_def)

lemma fallback_mismatch_steps: "kindMismatch b \<Longrightarrow> next_steps (fallback kb b) = mismatchSteps"
  by (simp add: fallback_def Let_def)

lemma blended_mismatch_steps:
  "kindMismatch b \<Longrightarrow> next_steps (blended kb b ai) = take 10 (mismatchSteps @ next_steps ai)"
  by (simp add: blended_def Let_def)

text \<open>The test \<open>/@/\<close> is the presence of the code unit of \<open>@\<close>.\<close>

lemma test_at_sign: "test_at (lit [64]) prev t = (64 \<in> set t)"
  by (induction t arbitrary: prev) auto

lemma test_sign: "test (lit (js ''@'')) t = (64 \<in> set t)"
proof -
  have "js ''@'' = [64]" by (simp add: js_def)
  then show ?thesis by (simp only: test_def test_at_sign)
qed

lemma looksLikeEmail_iff: "looksLikeEmail t = (test headerRegex t \<or> 64 \<in> set t)"
  by (simp only: looksLikeEmail_def test_sign)

lemma bio_request:
  "BodySchema_parse (mkRequest (js ''email'') bioText) = Some (mkBody KEmail bioText)"
  by code_simp

lemma bio_not_email: "\<not> looksLikeEmail bioText"
  by code_simp

lemma bio_social: "looksLikeSocial bioText"
  by code_simp

text \<open>
  C3. For every request of kind \<open>email\<close> whose text has no email-like marker (no
  match of the header pattern \<open>^(subject|from|to|date|cc):\<close> at the start of a line, and
  no \<open>@\<close>: by \<open>looksLikeEmail_iff\<close> that is \<open>\<not> looksLikeEmail\<close>) and that contains one of
  the social-bait phrases the route tests for, every analysis returned has a risk score
  of at least 70 and the instruction to switch tabs among its next steps; without a
  model client the analysis is returned.
\<close>

theorem C3_mismatch_floor:
  assumes "BodySchema_parse rb = Some b"
    and "b_kind b = KEmail"
    and "\<not> looksLikeEmail (b_text b)"
    and "looksLikeSocial (b_text b)"
  shows "POST kb JSON_parse None (Some rb) = Inr (fallback kb b)
         \<and> (POST kb JSON_parse client (Some rb) = Inr r
              \<longrightarrow> 70 \<le> risk_score r \<and> switchTabStep \<in> set (next_steps r))"
proof (intro conjI impI)
  show "POST kb JSON_parse None (Some rb) = Inr (fallback kb b)"
    using assms(1) by (rule POST_no_client)
next
  have mm: "kindMismatch b" using assms(2-4) by (simp add: kindMismatch_def)
  assume p: "POST kb JSON_parse client (Some rb) = Inr r"
  from POST_Inr [OF p] assms(1) have "r = fallback kb b \<or> (\<exists>ai. r = blended kb b ai)"
    by auto
  then have "70 \<le> risk_score r \<and> switchTabStep \<in> set (next_steps r)"
  proof
    assume "r = fallback kb b"
    then show ?thesis
      using mm adjustScore_mismatch
      by (simp add: fallback_risk_score fallback_mismatch_steps mismatchSteps_def)
  next
    assume "\<exists>ai. r = blended kb b ai"
    then obtain ai where "r = blended kb b ai" by blast
    then show ?thesis
      using mm adjustScore_mismatch switchTab_first
      by (simp add: blended_risk_score blended_mismatch_steps)
  qed
  then show "70 \<le> risk_score r" and "switchTabStep \<in> set (next_steps r)" by simp_all
qed

theorem C3_witness:
  "BodySchema_parse (mkRequest (js ''email'') bioText) = Some (mkBody KEmail bioText)
   \<and> b_kind (mkBody KEmail bioText) = KEmail
   \<and> \<not> looksLikeEmail (b_text (mkBody KEmail bioText))
   \<and> looksLikeSocial (b_text (mkBody KEmail bioText))
   \<and> POST [] (map_of []) None (Some (mkRequest (js ''email'') bioText))
       = Inr (fallback [] (mkBody KEmail bioText))
   \<and> 70 \<le> risk_score (fallback [] (mkBody KEmail bioText))
   \<and> switchTabStep \<in> set (next_steps (fallback [] (mkBody KEmail bioText)))"
proof -
  have k: "b_kind (mkBody KEmail bioText) = KEmail" by (simp add: mkBody_def)
  have e: "\<not> looksLikeEmail (b_text (mkBody KEmail bioText))"
    using bio_not_email by (simp add: mkBody_def)
  have s: "looksLikeSocial (b_text (mkBody KEmail bioText))"
    using bio_social by (simp add: mkBody_def)
  from C3_mismatch_floor [OF bio_request k e s, of "[]" "map_of []" None
         "fallback [] (mkBody KEmail bioText)"] bio_request k e s
  show ?thesis by simp
qed

section \<open>The fallback policy\<close>



















section \<open>Presence, not count\<close>

lemma filter_nonempty: "(filter P xs \<noteq> []) = list_ex P xs"
  by (simp add: filter_empty_conv list_ex_iff)

lemma take_nonempty_40: "(take 40 xs \<noteq> []) = (xs \<noteq> [])"
  by simp

lemma take_nonempty_30: "(take 30 xs \<noteq> []) = (xs \<noteq> [])"
  by simp

text \<open>The score of the source, written with the table of the specification.\<close>

lemma score_by_table:
  "heuristic_score (extractSignals t) =
     min 100 (0 + (if urlsPresent t then 16 else 0) + (if shortLinkPresent t then 10 else 0)
                + contribution t (moneyPhrases, 16) + contribution t (otpPhrases, 26)
                + contribution t (credPhrases, 18) + contribution t (urgencyPhrases, 10)
                + contribution t (fearPhrases, 10) + contribution t (authorityPhrases, 7)
                + contribution t (rewardPhrases, 10) + contribution t (attachmentPhrases, 10)
                + contribution t (viralPhrases, 22) + contribution t (getRichPhrases, 22))"
  by (simp only: extractSignals_score keywordScore_def collectHits_def hits.select_convs
        filter_nonempty take_nonempty_40 contribution_def categoryHit_def urlsPresent_def
        shortLinkPresent_def fst_conv snd_conv)

lemma score_by_table_v1:
  "heuristic_score (extractSignals_v1 t) =
     min 100 (0 + (if urlsPresent_v1 t then 18 else 0) + (if shortLinkPresent_v1 t then 10 else 0)
                + contribution t (moneyPhrases_v1, 18) + contribution t (otpPhrases_v1, 22)
                + contribution t (urgencyPhrases_v1, 12) + contribution t (fearPhrases_v1, 12)
                + contribution t (authorityPhrases_v1, 8) + contribution t (rewardPhrases_v1, 10))"
proof -
  have "heuristic_score (extractSignals_v1 t) =
          keywordScore_v1 (collectHits_v1 (take 30 (matchAll urlRegex_v1 t)) (toLowerCase t))"
    by (simp add: extractSignals_v1_def Let_def)
  then show ?thesis
    by (simp only: keywordScore_v1_def collectHits_v1_def hits_v1.select_convs
          filter_nonempty take_nonempty_30 contribution_def categoryHit_def urlsPresent_v1_def
          shortLinkPresent_v1_def fst_conv snd_conv)
qed

text \<open>
  C9. Each keyword category contributes its weight at most once: the contribution of a
  category is its weight when at least one of its phrases occurs in the text and 0
  otherwise, and the heuristic score depends only on which categories (and whether a
  URL and a shortened link) are present. So two texts with the same categories
  present have the same score, however many phrases of a category each holds, and a
  category present in both contributes the same to both. This holds for the table of
  the variant with the knowledge base and for that of the oldest variant.
\<close>

theorem C9_presence_not_count:
  "(urlsPresent t = urlsPresent t' \<and> shortLinkPresent t = shortLinkPresent t'
      \<and> list_all (\<lambda>c. categoryHit t c = categoryHit t' c) keywordTable
     \<longrightarrow> heuristic_score (extractSignals t) = heuristic_score (extractSignals t'))
   \<and> (urlsPresent_v1 t = urlsPresent_v1 t' \<and> shortLinkPresent_v1 t = shortLinkPresent_v1 t'
      \<and> list_all (\<lambda>c. categoryHit t c = categoryHit t' c) keywordTable_v1
     \<longrightarrow> heuristic_score (extractSignals_v1 t) = heuristic_score (extractSignals_v1 t'))
   \<and> (categoryHit t c \<and> categoryHit t' c \<longrightarrow> contribution t c = snd c \<and> contribution t' c = snd c)
   \<and> (\<not> categoryHit t c \<longrightarrow> contribution t c = 0)"
proof (intro conjI impI)
  assume a: "urlsPresent t = urlsPresent t' \<and> shortLinkPresent t = shortLinkPresent t'
      \<and> list_all (\<lambda>c. categoryHit t c = categoryHit t' c) keywordTable"
  then have u: "urlsPresent t = urlsPresent t'" and s: "shortLinkPresent t = shortLinkPresent t'"
    and l: "list_all (\<lambda>c. categoryHit t c = categoryHit t' c) keywordTable" by simp_all
  from l have h: "categoryHit t (moneyPhrases, 16) = categoryHit t' (moneyPhrases, 16)"
    "categoryHit t (otpPhrases, 26) = categoryHit t' (otpPhrases, 26)"
    "categoryHit t (credPhrases, 18) = categoryHit t' (credPhrases, 18)"
    "categoryHit t (urgencyPhrases, 10) = categoryHit t' (urgencyPhrases, 10)"
    "categoryHit t (fearPhrases, 10) = categoryHit t' (fearPhrases, 10)"
    "categoryHit t (authorityPhrases, 7) = categoryHit t' (authorityPhrases, 7)"
    "categoryHit t (rewardPhrases, 10) = categoryHit t' (rewardPhrases, 10)"
    "categoryHit t (attachmentPhrases, 10) = categoryHit t' (attachmentPhrases, 10)"
    "categoryHit t (viralPhrases, 22) = categoryHit t' (viralPhrases, 22)"
    "categoryHit t (getRichPhrases, 22) = categoryHit t' (getRichPhrases, 22)"
    by (simp_all add: keywordTable_def)
  show "heuristic_score (extractSignals t) = heuristic_score (extractSignals t')"
    by (simp only: score_by_table contribution_def u s h)
next
  assume a: "urlsPresent_v1 t = urlsPresent_v1 t' \<and> shortLinkPresent_v1 t = shortLinkPresent_v1 t'
      \<and> list_all (\<lambda>c. categoryHit t c = categoryHit t' c) keywordTable_v1"
  then have u: "urlsPresent_v1 t = urlsPresent_v1 t'"
    and s: "shortLinkPresent_v1 t = shortLinkPresent_v1 t'"
    and l: "list_all (\<lambda>c. categoryHit t c = categoryHit t' c) keywordTable_v1" by simp_all
  from l have h: "categoryHit t (moneyPhrases_v1, 18) = categoryHit t' (moneyPhrases_v1, 18)"
    "categoryHit t (otpPhrases_v1, 22) = categoryHit t' (otpPhrases_v1, 22)"
    "categoryHit t (urgencyPhrases_v1, 12) = categoryHit t' (urgencyPhrases_v1, 12)"
    "categoryHit t (fearPhrases_v1, 12) = categoryHit t' (fearPhrases_v1, 12)"
    "categoryHit t (authorityPhrases_v1, 8) = categoryHit t' (authorityPhrases_v1, 8)"
    "categoryHit t (rewardPhrases_v1, 10) = categoryHit t' (rewardPhrases_v1, 10)"
    by (simp_all add: keywordTable_v1_def)
  show "heuristic_score (extractSignals_v1 t) = heuristic_score (extractSignals_v1 t')"
    by (simp only: score_by_table_v1 contribution_def u s h)
next
  assume "categoryHit t c \<and> categoryHit t' c"
  then show "contribution t c = snd c" and "contribution t' c = snd c"
    by (simp_all add: contribution_def)
next
  assume "\<not> categoryHit t c"
  then show "contribution t c = 0" by (simp add: contribution_def)
qed

lemma urgent_urls: "\<not> urlsPresent urgentOnce \<and> \<not> urlsPresent urgentThrice
    \<and> \<not> shortLinkPresent urgentOnce \<and> \<not> shortLinkPresent urgentThrice"
  by code_simp

lemma urgent_categories:
  "list_all (\<lambda>c. categoryHit urgentOnce c = categoryHit urgentThrice c) keywordTable"
  by code_simp

lemma urgent_hits:
  "filter (includesStr (toLowerCase urgentOnce)) urgencyPhrases = [js ''urgent'']
   \<and> filter (includesStr (toLowerCase urgentThrice)) urgencyPhrases
       = [js ''act now'', js ''urgent'', js ''asap'']"
  by code_simp

theorem C9_witness:
  "urlsPresent urgentOnce = urlsPresent urgentThrice
   \<and> shortLinkPresent urgentOnce = shortLinkPresent urgentThrice
   \<and> list_all (\<lambda>c. categoryHit urgentOnce c = categoryHit urgentThrice c) keywordTable
   \<and> filter (includesStr (toLowerCase urgentOnce)) urgencyPhrases = [js ''urgent'']
   \<and> filter (includesStr (toLowerCase urgentThrice)) urgencyPhrases
       = [js ''act now'', js ''urgent'', js ''asap'']
   \<and> heuristic_score (extractSignals urgentOnce) = heuristic_score (extractSignals urgentThrice)"
  using C9_presence_not_count [of urgentOnce urgentThrice] urgent_urls urgent_categories
    urgent_hits
  by simp

end
